theory Spec2Isabelle
  imports Complex_Main
begin

section \<open>Values, errors and scalars\<close>

text \<open>
  The notebook trains a feed-forward classifier and validates it once per epoch.
  Tensor entries are idealised as real numbers. A scalar that the program keeps is
  either finite or not (nan or an infinity): the second case is what dividing a
  tensor by zero, or taking the mean of no elements, produces.
\<close>

datatype error = ShapeError | IndexError | ZeroDivisionError | ValueError

datatype fval = Fin real | NonFinite

text \<open>
  The accumulators of the epoch loop start as the Python integer \<open>0\<close> and become
  0-dimensional tensors as soon as a tensor is added to them
  (\<^verbatim>\<open>test_loss += criterion(log_ps, labels)\<close>); \<^verbatim>\<open>running_loss\<close> stays a
  Python number because of \<^verbatim>\<open>.item()\<close>.
\<close>

datatype number = PyNum fval | Tensor fval

fun fadd :: "fval \<Rightarrow> fval \<Rightarrow> fval" where
  "fadd (Fin a) (Fin b) = Fin (a + b)"
| "fadd _ _ = NonFinite"

fun fscale :: "fval \<Rightarrow> real \<Rightarrow> fval" where
  "fscale (Fin a) k = Fin (a * k)"
| "fscale NonFinite k = NonFinite"

fun value_of :: "number \<Rightarrow> fval" where
  "value_of (PyNum v) = v"
| "value_of (Tensor v) = v"

text \<open>\<^verbatim>\<open>a + b\<close>: the sum is a tensor as soon as one operand is.\<close>

fun add :: "number \<Rightarrow> number \<Rightarrow> number" where
  "add (PyNum a) (PyNum b) = PyNum (fadd a b)"
| "add a b = Tensor (fadd (value_of a) (value_of b))"

text \<open>\<^verbatim>\<open>t.item()\<close>: the Python number held by a 0-dimensional tensor.\<close>

fun item :: "number \<Rightarrow> number" where
  "item a = PyNum (value_of a)"

text \<open>
  \<^verbatim>\<open>a / n\<close> for an integer \<open>n\<close>, as in \<^verbatim>\<open>running_loss/len(trainloader)\<close>.
  Python numbers raise \<^verbatim>\<open>ZeroDivisionError\<close> on a zero divisor; a tensor does not
  raise and holds nan or an infinity instead.
\<close>

fun truediv :: "number \<Rightarrow> nat \<Rightarrow> error + number" where
  "truediv (PyNum (Fin a)) n =
     (if n = 0 then Inl ZeroDivisionError else Inr (PyNum (Fin (a / real n))))"
| "truediv (PyNum NonFinite) n =
     (if n = 0 then Inl ZeroDivisionError else Inr (PyNum NonFinite))"
| "truediv (Tensor (Fin a)) n =
     (if n = 0 then Inr (Tensor NonFinite) else Inr (Tensor (Fin (a / real n))))"
| "truediv (Tensor NonFinite) n = Inr (Tensor NonFinite)"

text \<open>\<^verbatim>\<open>a * 100\<close> in the printed accuracy percentage.\<close>

fun mul :: "number \<Rightarrow> real \<Rightarrow> number" where
  "mul (PyNum v) k = PyNum (fscale v k)"
| "mul (Tensor v) k = Tensor (fscale v k)"

section \<open>The accuracy metric (cells 7 to 11, and the validation pass)\<close>

text \<open>
  \<^verbatim>\<open>top_p, top_class = ps.topk(1, dim=1)\<close>: per row, the largest probability and
  its index, as cell 6 describes it ("if the highest value is the fifth element,
  we'll get back 4 as the index"). Among equal maxima the first index is returned
  here; the library leaves the choice open. A row without entries has no top
  element and the call raises.
\<close>

fun argmax_from :: "real \<Rightarrow> nat \<Rightarrow> nat \<Rightarrow> real list \<Rightarrow> real \<times> nat" where
  "argmax_from best bi i [] = (best, bi)"
| "argmax_from best bi i (x # xs) =
     (if best < x then argmax_from x i (Suc i) xs else argmax_from best bi (Suc i) xs)"

fun top1 :: "real list \<Rightarrow> real \<times> nat" where
  "top1 [] = (0, 0)"
| "top1 (x # xs) = argmax_from x 0 1 xs"

definition topk1 :: "real list list \<Rightarrow> error + (real list \<times> nat list)" where
  "topk1 ps =
     (if list_all (\<lambda>row. row \<noteq> []) ps
      then Inr (map (\<lambda>row. fst (top1 row)) ps, map (\<lambda>row. snd (top1 row)) ps)
      else Inl IndexError)"

text \<open>
  \<^verbatim>\<open>equals = top_class == labels.view(*top_class.shape)\<close>: the labels are reshaped
  to one column, which raises unless there are as many labels as rows, and compared
  elementwise.
\<close>

definition equals :: "nat list \<Rightarrow> int list \<Rightarrow> error + bool list" where
  "equals top_cls labels =
     (if length labels = length top_cls
      then Inr (map (\<lambda>(c, l). int c = l) (zip top_cls labels))
      else Inl ShapeError)"

text \<open>\<^verbatim>\<open>equals.type(torch.FloatTensor)\<close>: True is 1.0 and False is 0.0.\<close>

definition as_float :: "bool list \<Rightarrow> real list" where
  "as_float bs = map (\<lambda>b. if b then 1 else 0) bs"

text \<open>\<^verbatim>\<open>torch.mean\<close> of a 1-column tensor; the mean of no elements is nan.\<close>

definition mean :: "real list \<Rightarrow> number" where
  "mean xs = (if xs = [] then Tensor NonFinite
              else Tensor (Fin (sum_list xs / real (length xs))))"

text \<open>The fraction of positions where predicted class and label agree.\<close>

definition fraction_correct :: "nat list \<Rightarrow> int list \<Rightarrow> real" where
  "fraction_correct top_cls labels =
     real (length (filter (\<lambda>(c, l). int c = l) (zip top_cls labels)))
       / real (length labels)"

section \<open>The loss function\<close>

text \<open>
  Modelled from the spec: \<^verbatim>\<open>criterion = nn.NLLLoss()\<close> is a class of the tensor
  library, whose code is not part of the notebook. It takes per-sample
  log-probabilities and integer labels, returns the negative mean log-probability
  of the true classes, and fails when a label is outside \<open>[0, numClasses)\<close>. The
  loop below walks the batch, picks each sample's entry and adds it up.
\<close>

fun nll_sum :: "real list list \<Rightarrow> int list \<Rightarrow> real \<Rightarrow> error + real" where
  "nll_sum [] [] acc = Inr acc"
| "nll_sum (row # rows) (l # ls) acc =
     (if 0 \<le> l \<and> l < int (length row) then nll_sum rows ls (acc - row ! nat l)
      else Inl IndexError)"
| "nll_sum _ _ acc = Inl ShapeError"

definition NLLLoss :: "real list list \<Rightarrow> int list \<Rightarrow> error + number" where
  "NLLLoss log_ps labels =
     (if length log_ps \<noteq> length labels then Inl ShapeError
      else case nll_sum log_ps labels 0 of
             Inl e \<Rightarrow> Inl e
           | Inr s \<Rightarrow>
               Inr (if log_ps = [] then Tensor NonFinite
                    else Tensor (Fin (s / real (length log_ps)))))"

section \<open>Tensors and layers\<close>

text \<open>
  An input tensor is a nest of arrays around its entries: a batch of images has four
  levels (sample, channel, row, column), the single image of the inference cell, once
  reshaped, has two.
\<close>

datatype tensor = Entry real | Array "tensor list"

fun flat :: "tensor \<Rightarrow> real list" where
  "flat (Entry r) = [r]"
| "flat (Array ts) = concat (map flat ts)"

text \<open>
  \<^verbatim>\<open>x.view(x.shape[0], -1)\<close>: one row per sample, holding all of its entries.
  A tensor without a first dimension has no \<^verbatim>\<open>shape[0]\<close>, and a batch without
  samples cannot be reshaped since the row width \<open>-1\<close> is ambiguous.
\<close>

fun view_rows :: "tensor \<Rightarrow> error + real list list" where
  "view_rows (Entry r) = Inl IndexError"
| "view_rows (Array []) = Inl ShapeError"
| "view_rows (Array (t # ts)) = Inr (map flat (t # ts))"

text \<open>\<^verbatim>\<open>img.view(1, 784)\<close> of the inference cell: exactly 784 entries are required.\<close>

definition view_1_784 :: "tensor \<Rightarrow> error + tensor" where
  "view_1_784 img =
     (if length (flat img) = 784 then Inr (Array [Array (map Entry (flat img))])
      else Inl ShapeError)"

text \<open>
  Modelled from the spec: \<^verbatim>\<open>nn.Linear\<close> is a class of the tensor library, whose
  code is not part of the notebook. A layer \<^verbatim>\<open>nn.Linear(i, o)\<close> is an affine transform:
  it holds an \<open>o \<times> i\<close> weight and an \<open>o\<close> bias, maps a row \<open>x\<close> of width \<open>i\<close> to
  \<open>W x + b\<close>, and rejects rows of any other width.
\<close>

record Linear =
  in_features :: nat
  out_features :: nat
  weight :: "nat \<Rightarrow> nat \<Rightarrow> real"
  bias :: "nat \<Rightarrow> real"

definition affine :: "Linear \<Rightarrow> real list \<Rightarrow> real list" where
  "affine l x =
     map (\<lambda>i. sum_list (map (\<lambda>j. x ! j * weight l i j) [0..<in_features l]) + bias l i)
       [0..<out_features l]"

definition Linear_forward :: "Linear \<Rightarrow> real list list \<Rightarrow> error + real list list" where
  "Linear_forward l xs =
     (if list_all (\<lambda>x. length x = in_features l) xs then Inr (map (affine l) xs)
      else Inl ShapeError)"

text \<open>
  Modelled from the spec: \<^verbatim>\<open>F.relu\<close> is a function of the tensor library; it is the
  rectified-linear non-linearity, applied to every entry.
\<close>

definition relu :: "real list list \<Rightarrow> real list list" where
  "relu xs = map (map (max 0)) xs"

text \<open>
  Modelled from the spec: \<^verbatim>\<open>F.log_softmax(x, dim=1)\<close> is a function of the tensor
  library; it is the log of the normalised exponential distribution over the class
  scores of each row.
\<close>

definition log_softmax :: "real list list \<Rightarrow> real list list" where
  "log_softmax xs = map (\<lambda>row. map (\<lambda>v. v - ln (sum_list (map exp row))) row) xs"

datatype mode = TrainMode | EvalMode

text \<open>
  The random draws of the library's generator are an input of the model: the
  generator state is the number of draws made so far, and the draw with a given
  number is looked up in a table. A dropout mask says which units of which sample
  are zeroed.
\<close>

type_synonym mask = "nat \<Rightarrow> nat \<Rightarrow> bool"

text \<open>
  Modelled from the spec: \<^verbatim>\<open>nn.Dropout(p)\<close> is a class of the tensor library. In train
  mode it zeroes each unit independently with probability \<open>p\<close> and rescales the
  survivors by \<open>1/(1-p)\<close>, which takes one draw of the generator; in evaluation mode
  it is the identity and draws nothing.
\<close>

definition apply_mask :: "real \<Rightarrow> mask \<Rightarrow> real list list \<Rightarrow> real list list" where
  "apply_mask p zeroed xs =
     map (\<lambda>(i, row). map (\<lambda>(j, v). if zeroed i j then 0 else v / (1 - p)) (enumerate 0 row))
       (enumerate 0 xs)"

definition Dropout_forward ::
  "real \<Rightarrow> mode \<Rightarrow> (nat \<Rightarrow> mask) \<Rightarrow> nat \<Rightarrow> real list list \<Rightarrow> real list list \<times> nat" where
  "Dropout_forward p m bern g xs =
     (case m of
        EvalMode \<Rightarrow> (xs, g)
      | TrainMode \<Rightarrow> (apply_mask p (bern g) xs, Suc g))"

section \<open>The two classifiers (cells 3 and 16)\<close>

record Classifier =
  fc1 :: Linear
  fc2 :: Linear
  fc3 :: Linear
  fc4 :: Linear
  mode :: mode

text \<open>\<^verbatim>\<open>class DropoutClassifier(Classifier)\<close> adds \<^verbatim>\<open>self.dropout = nn.Dropout(p=.2)\<close>.\<close>

record DropoutClassifier = Classifier +
  dropout :: real

text \<open>\<^verbatim>\<open>model.eval()\<close> and \<^verbatim>\<open>model.train()\<close>.\<close>

definition eval :: "'a Classifier_scheme \<Rightarrow> 'a Classifier_scheme" where
  "eval m = m\<lparr>mode := EvalMode\<rparr>"

definition train :: "'a Classifier_scheme \<Rightarrow> 'a Classifier_scheme" where
  "train m = m\<lparr>mode := TrainMode\<rparr>"

text \<open>\<^verbatim>\<open>Classifier.forward\<close>.\<close>

definition Classifier_forward :: "'a Classifier_scheme \<Rightarrow> tensor \<Rightarrow> error + real list list" where
  "Classifier_forward self x =
     (case view_rows x of
        Inl e \<Rightarrow> Inl e
      | Inr x0 \<Rightarrow>
     (case Linear_forward (fc1 self) x0 of
        Inl e \<Rightarrow> Inl e
      | Inr a1 \<Rightarrow>
     (case Linear_forward (fc2 self) (relu a1) of
        Inl e \<Rightarrow> Inl e
      | Inr a2 \<Rightarrow>
     (case Linear_forward (fc3 self) (relu a2) of
        Inl e \<Rightarrow> Inl e
      | Inr a3 \<Rightarrow>
     (case Linear_forward (fc4 self) (relu a3) of
        Inl e \<Rightarrow> Inl e
      | Inr a4 \<Rightarrow> Inr (log_softmax a4))))))"

text \<open>
  \<^verbatim>\<open>DropoutClassifier.forward\<close>. It takes the generator state and returns it with
  the result, also when a layer raises after some masks have been drawn.
\<close>

definition DropoutClassifier_forward ::
  "(nat \<Rightarrow> mask) \<Rightarrow> DropoutClassifier \<Rightarrow> nat \<Rightarrow> tensor \<Rightarrow> (error + real list list) \<times> nat" where
  "DropoutClassifier_forward bern self g x =
     (case view_rows x of
        Inl e \<Rightarrow> (Inl e, g)
      | Inr x0 \<Rightarrow>
     (case Linear_forward (fc1 self) x0 of
        Inl e \<Rightarrow> (Inl e, g)
      | Inr a1 \<Rightarrow>
     (case Dropout_forward (dropout self) (mode self) bern g (relu a1) of (x1, g1) \<Rightarrow>
     (case Linear_forward (fc2 self) x1 of
        Inl e \<Rightarrow> (Inl e, g1)
      | Inr a2 \<Rightarrow>
     (case Dropout_forward (dropout self) (mode self) bern g1 (relu a2) of (x2, g2) \<Rightarrow>
     (case Linear_forward (fc3 self) x2 of
        Inl e \<Rightarrow> (Inl e, g2)
      | Inr a3 \<Rightarrow>
     (case Dropout_forward (dropout self) (mode self) bern g2 (relu a3) of (x3, g3) \<Rightarrow>
     (case Linear_forward (fc4 self) x3 of
        Inl e \<Rightarrow> (Inl e, g3)
      | Inr a4 \<Rightarrow> (Inr (log_softmax a4), g3)))))))))"

section \<open>Data loaders (cell 1)\<close>

text \<open>
  Modelled from the spec: \<^verbatim>\<open>torch.utils.data.DataLoader\<close> is library code. A pass
  over a loader shuffles the samples and cuts them into batches of \<open>batch_size\<close>
  samples, the last of which may be smaller; \<^verbatim>\<open>len(loader)\<close> is the number of
  batches. The library rejects a batch size of zero when the loader is built, so
  \<open>batch_size\<close> is positive in every loader the loops receive. A shuffle is given
  as the list of transpositions that the generator draws.
\<close>

record DataLoader =
  dataset :: "(tensor \<times> int) list"
  batch_size :: nat

definition len :: "DataLoader \<Rightarrow> nat" where
  "len dl = (length (dataset dl) + batch_size dl - 1) div batch_size dl"

fun swap :: "'a list \<Rightarrow> nat \<times> nat \<Rightarrow> 'a list" where
  "swap xs (i, j) =
     (if i < length xs \<and> j < length xs then xs[i := xs ! j, j := xs ! i] else xs)"

definition shuffle :: "(nat \<times> nat) list \<Rightarrow> 'a list \<Rightarrow> 'a list" where
  "shuffle sw xs = foldl swap xs sw"

function chunks :: "nat \<Rightarrow> 'a list \<Rightarrow> 'a list list" where
  "chunks n xs = (if n = 0 \<or> xs = [] then [] else take n xs # chunks n (drop n xs))"
  by pat_completeness auto
termination
  by (relation "measure (\<lambda>(n, xs). length xs)") auto

declare chunks.simps [simp del]

text \<open>A batch is the stack of its images with the list of its labels.\<close>

definition collate :: "(tensor \<times> int) list \<Rightarrow> tensor \<times> int list" where
  "collate b = (Array (map fst b), map snd b)"

definition iter :: "(nat \<Rightarrow> (nat \<times> nat) list) \<Rightarrow> DataLoader \<Rightarrow> nat \<Rightarrow> (tensor \<times> int list) list \<times> nat" where
  "iter perm dl g = (map collate (chunks (batch_size dl) (shuffle (perm g) (dataset dl))), Suc g)"



section \<open>The training and validation driver (cell 17)\<close>

text \<open>
  What the library supplies to the driver: the generator's draws (permutations,
  dropout masks, initial weights), the optimizer as first built, and the effect of
  \<^verbatim>\<open>optimizer.zero_grad()\<close>, \<^verbatim>\<open>train_loss.backward()\<close> and \<^verbatim>\<open>optimizer.step()\<close>
  on one batch: a new optimizer state and new weights and biases for the four
  layers.
\<close>

type_synonym params = "(nat \<Rightarrow> nat \<Rightarrow> real) \<times> (nat \<Rightarrow> real)"

record 'o torch =
  randperm :: "nat \<Rightarrow> (nat \<times> nat) list"
  bernoulli :: "nat \<Rightarrow> mask"
  initial :: "nat \<Rightarrow> params"
  Adam :: "DropoutClassifier \<Rightarrow> 'o"
  backward_step :: "'o \<Rightarrow> DropoutClassifier \<Rightarrow> nat \<Rightarrow> tensor \<Rightarrow> int list \<Rightarrow> 'o \<times> (nat \<Rightarrow> params)"

definition load :: "params \<Rightarrow> Linear \<Rightarrow> Linear" where
  "load wb l = l\<lparr>weight := fst wb, bias := snd wb\<rparr>"

definition load_all :: "(nat \<Rightarrow> params) \<Rightarrow> DropoutClassifier \<Rightarrow> DropoutClassifier" where
  "load_all new m =
     m\<lparr>fc1 := load (new 1) (fc1 m), fc2 := load (new 2) (fc2 m),
       fc3 := load (new 3) (fc3 m), fc4 := load (new 4) (fc4 m)\<rparr>"

text \<open>\<^verbatim>\<open>nn.Linear(i, o)\<close> and \<^verbatim>\<open>DropoutClassifier()\<close>: a fresh model is in train mode.\<close>

definition Linear_init :: "params \<Rightarrow> nat \<Rightarrow> nat \<Rightarrow> Linear" where
  "Linear_init wb i o' =
     \<lparr>in_features = i, out_features = o', weight = fst wb, bias = snd wb\<rparr>"

definition DropoutClassifier_init :: "(nat \<Rightarrow> params) \<Rightarrow> nat \<Rightarrow> DropoutClassifier \<times> nat" where
  "DropoutClassifier_init init g =
     (\<lparr>fc1 = Linear_init (init g) 784 256,
       fc2 = Linear_init (init (g + 1)) 256 128,
       fc3 = Linear_init (init (g + 2)) 128 64,
       fc4 = Linear_init (init (g + 3)) 64 10,
       mode = TrainMode,
       dropout = 0.2\<rparr>, g + 4)"

text \<open>One printed line: \<^verbatim>\<open>Epoch {e+1} of {epochs} | Train Loss | Test Loss | Accuracy %\<close>.\<close>

record report =
  Epoch :: nat
  Of :: nat
  Train_Loss :: number
  Test_Loss :: number
  Accuracy :: number

text \<open>The variables of the notebook that the driver reads and writes.\<close>

record 'o session =
  model :: DropoutClassifier
  optimizer :: 'o
  rng :: nat
  train_losses :: "number list"
  test_losses :: "number list"
  printed :: "report list"

text \<open>
  An operation returns its result or the error it raised, together with the session
  as it is at that moment: an error leaves every assignment made before it in place.
\<close>

type_synonym ('a, 'o) outcome = "(error + 'a) \<times> 'o session"

text \<open>\<^verbatim>\<open>xs[-1]\<close>.\<close>

definition last_item :: "'a list \<Rightarrow> error + 'a" where
  "last_item xs = (case xs of [] \<Rightarrow> Inl IndexError | _ # _ \<Rightarrow> Inr (last xs))"

text \<open>The training batches of one epoch: \<^verbatim>\<open>for images, labels in trainloader: ...\<close>.\<close>

fun train_batches ::
  "'o torch \<Rightarrow> (tensor \<times> int list) list \<Rightarrow> number \<Rightarrow> 'o session \<Rightarrow> (number, 'o) outcome" where
  "train_batches T [] running_loss s = (Inr running_loss, s)"
| "train_batches T ((images, labels) # rest) running_loss s =
     (case DropoutClassifier_forward (bernoulli T) (model s) (rng s) images of
        (Inl e, g) \<Rightarrow> (Inl e, s\<lparr>rng := g\<rparr>)
      | (Inr log_ps, g) \<Rightarrow>
     (case NLLLoss log_ps labels of
        Inl e \<Rightarrow> (Inl e, s\<lparr>rng := g\<rparr>)
      | Inr train_loss \<Rightarrow>
     (case backward_step T (optimizer s) (model s) (rng s) images labels of
        (opt, new) \<Rightarrow>
          train_batches T rest (add running_loss (item train_loss))
            (s\<lparr>rng := g, optimizer := opt, model := load_all new (model s)\<rparr>))))"

text \<open>
  The validation batches: \<^verbatim>\<open>for images, labels in testloader: ...\<close> under
  \<^verbatim>\<open>torch.no_grad()\<close>, which changes no value.
\<close>

fun validation_batches ::
  "'o torch \<Rightarrow> (tensor \<times> int list) list \<Rightarrow> number \<times> number \<Rightarrow> 'o session
     \<Rightarrow> (number \<times> number, 'o) outcome" where
  "validation_batches T [] (test_loss, accuracy) s = (Inr (test_loss, accuracy), s)"
| "validation_batches T ((images, labels) # rest) (test_loss, accuracy) s =
     (case DropoutClassifier_forward (bernoulli T) (model s) (rng s) images of
        (Inl e, g) \<Rightarrow> (Inl e, s\<lparr>rng := g\<rparr>)
      | (Inr log_ps, g) \<Rightarrow>
     (case NLLLoss log_ps labels of
        Inl e \<Rightarrow> (Inl e, s\<lparr>rng := g\<rparr>)
      | Inr l \<Rightarrow>
     (case topk1 (map (map exp) log_ps) of
        Inl e \<Rightarrow> (Inl e, s\<lparr>rng := g\<rparr>)
      | Inr (top_p, top_cls) \<Rightarrow>
     (case equals top_cls labels of
        Inl e \<Rightarrow> (Inl e, s\<lparr>rng := g\<rparr>)
      | Inr eq \<Rightarrow>
          validation_batches T rest (add test_loss l, add accuracy (mean (as_float eq)))
            (s\<lparr>rng := g\<rparr>)))))"

text \<open>
  The averaging and the report that end an epoch:
  \<^verbatim>\<open>train_losses.append(running_loss/len(trainloader))\<close>,
  \<^verbatim>\<open>test_losses.append(test_loss/len(testloader))\<close>, the \<^verbatim>\<open>print\<close>, and
  \<^verbatim>\<open>model.train()\<close>.
\<close>

definition epoch_report ::
  "nat \<Rightarrow> nat \<Rightarrow> nat \<Rightarrow> nat \<Rightarrow> number \<Rightarrow> number \<Rightarrow> number \<Rightarrow> 'o session \<Rightarrow> (unit, 'o) outcome" where
  "epoch_report e epochs n_train n_test running_loss test_loss accuracy s =
     (case truediv running_loss n_train of
        Inl err \<Rightarrow> (Inl err, s)
      | Inr a \<Rightarrow>
     (let s1 = s\<lparr>train_losses := train_losses s @ [a]\<rparr> in
     (case truediv test_loss n_test of
        Inl err \<Rightarrow> (Inl err, s1)
      | Inr b \<Rightarrow>
     (let s2 = s1\<lparr>test_losses := test_losses s1 @ [b]\<rparr> in
     (case last_item (train_losses s2) of
        Inl err \<Rightarrow> (Inl err, s2)
      | Inr trl \<Rightarrow>
     (case last_item (test_losses s2) of
        Inl err \<Rightarrow> (Inl err, s2)
      | Inr tel \<Rightarrow>
     (case truediv accuracy n_test of
        Inl err \<Rightarrow> (Inl err, s2)
      | Inr c \<Rightarrow>
          (Inr (),
           s2\<lparr>printed := printed s2 @
                  [\<lparr>Epoch = e + 1, Of = epochs, Train_Loss = trl, Test_Loss = tel,
                    Accuracy = mul c 100\<rparr>],
              model := train (model s2)\<rparr>))))))))"

text \<open>The validation pass of one epoch, from \<^verbatim>\<open>test_loss = 0\<close> to the end of the loop.\<close>

definition validation :: "'o torch \<Rightarrow> DataLoader \<Rightarrow> 'o session \<Rightarrow> (number \<times> number, 'o) outcome" where
  "validation T testloader s =
     (let s1 = s\<lparr>model := eval (model s)\<rparr> in
      case iter (randperm T) testloader (rng s1) of
        (batches, g) \<Rightarrow>
          validation_batches T batches (PyNum (Fin 0), PyNum (Fin 0)) (s1\<lparr>rng := g\<rparr>))"

text \<open>The body of \<^verbatim>\<open>for e in range(epochs)\<close>.\<close>

definition run_epoch ::
  "'o torch \<Rightarrow> DataLoader \<Rightarrow> DataLoader \<Rightarrow> nat \<Rightarrow> nat \<Rightarrow> 'o session \<Rightarrow> (unit, 'o) outcome" where
  "run_epoch T trainloader testloader epochs e s =
     (case iter (randperm T) trainloader (rng s) of
        (batches, g) \<Rightarrow>
     (case train_batches T batches (PyNum (Fin 0)) (s\<lparr>rng := g\<rparr>) of
        (Inl err, s1) \<Rightarrow> (Inl err, s1)
      | (Inr running_loss, s1) \<Rightarrow>
     (case validation T testloader s1 of
        (Inl err, s2) \<Rightarrow> (Inl err, s2)
      | (Inr (test_loss, accuracy), s2) \<Rightarrow>
          epoch_report e epochs (len trainloader) (len testloader)
            running_loss test_loss accuracy s2)))"

fun epoch_loop ::
  "'o torch \<Rightarrow> DataLoader \<Rightarrow> DataLoader \<Rightarrow> nat \<Rightarrow> nat list \<Rightarrow> 'o session \<Rightarrow> (unit, 'o) outcome" where
  "epoch_loop T trainloader testloader epochs [] s = (Inr (), s)"
| "epoch_loop T trainloader testloader epochs (e # es) s =
     (case run_epoch T trainloader testloader epochs e s of
        (Inl err, s1) \<Rightarrow> (Inl err, s1)
      | (Inr u, s1) \<Rightarrow> epoch_loop T trainloader testloader epochs es s1)"

text \<open>
  The head of the cell: \<^verbatim>\<open>model = DropoutClassifier()\<close>, the optimizer built on its
  parameters, and \<^verbatim>\<open>train_losses, test_losses = [], []\<close>. The generator state and
  the lines printed so far are what the cell inherits.
\<close>

definition fresh_session :: "'o torch \<Rightarrow> nat \<Rightarrow> report list \<Rightarrow> 'o session" where
  "fresh_session T g out =
     (case DropoutClassifier_init (initial T) g of
        (m, g1) \<Rightarrow>
          \<lparr>model = m, optimizer = Adam T m, rng = g1,
           train_losses = [], test_losses = [], printed = out\<rparr>)"

text \<open>The whole cell: \<^verbatim>\<open>epochs = 30\<close> and the loop over \<^verbatim>\<open>range(epochs)\<close>.\<close>

definition training_cell ::
  "'o torch \<Rightarrow> DataLoader \<Rightarrow> DataLoader \<Rightarrow> nat \<Rightarrow> report list \<Rightarrow> (unit, 'o) outcome" where
  "training_cell T trainloader testloader g out =
     (let epochs = 30 in
      epoch_loop T trainloader testloader epochs [0..<epochs] (fresh_session T g out))"


section \<open>Inference on one image (cell 19)\<close>

text \<open>
  The cell sets \<^verbatim>\<open>model.eval()\<close>, takes the first image of a test batch, reshapes
  it with \<^verbatim>\<open>img.view(1, 784)\<close>, runs \<^verbatim>\<open>model.forward(img)\<close> under
  \<^verbatim>\<open>torch.no_grad()\<close> and exponentiates the output. The image \<open>img\<close> that was
  taken from the loader is the input here, and \<open>g\<close> is the generator state at the
  forward pass; the plot that follows is outside the model. The result is the
  probability row (or the error raised) with the model and the generator state that
  the cell leaves behind.
\<close>

definition inference ::
  "(nat \<Rightarrow> mask) \<Rightarrow> DropoutClassifier \<Rightarrow> nat \<Rightarrow> tensor
     \<Rightarrow> (error + real list list) \<times> DropoutClassifier \<times> nat" where
  "inference bern m g img =
     (let m1 = eval m in
      case view_1_784 img of
        Inl e \<Rightarrow> (Inl e, m1, g)
      | Inr img1 \<Rightarrow>
     (case DropoutClassifier_forward bern m1 g img1 of
        (Inl e, g1) \<Rightarrow> (Inl e, m1, g1)
      | (Inr output, g1) \<Rightarrow> (Inr (map (map exp) output), m1, g1)))"

section \<open>Reference quantities\<close>

text \<open>
  The quantities that the reported numbers are compared with. The losses of the
  training batches of an epoch, each computed by the model as the steps before it
  left it:
\<close>

fun batch_losses :: "'o torch \<Rightarrow> (tensor \<times> int list) list \<Rightarrow> 'o session \<Rightarrow> number list" where
  "batch_losses T [] s = []"
| "batch_losses T ((images, labels) # rest) s =
     (case DropoutClassifier_forward (bernoulli T) (model s) (rng s) images of
        (Inl e, g) \<Rightarrow> []
      | (Inr log_ps, g) \<Rightarrow>
     (case NLLLoss log_ps labels of
        Inl e \<Rightarrow> []
      | Inr train_loss \<Rightarrow>
          train_loss # batch_losses T rest
            (s\<lparr>rng := g, optimizer := fst (backward_step T (optimizer s) (model s) (rng s) images labels),
               model := load_all (snd (backward_step T (optimizer s) (model s) (rng s) images labels)) (model s)\<rparr>)))"

text \<open>
  The comparison vector of one validation batch (which samples the model classifies
  correctly), and those of all batches of a validation pass:
\<close>

definition batch_equals :: "'a Classifier_scheme \<Rightarrow> tensor \<times> int list \<Rightarrow> bool list" where
  "batch_equals m b =
     (case Classifier_forward m (fst b) of
        Inl e \<Rightarrow> []
      | Inr log_ps \<Rightarrow>
     (case topk1 (map (map exp) log_ps) of
        Inl e \<Rightarrow> []
      | Inr (top_p, top_cls) \<Rightarrow>
     (case equals top_cls (snd b) of
        Inl e \<Rightarrow> []
      | Inr eq \<Rightarrow> eq)))"

definition validation_equals :: "'o torch \<Rightarrow> DataLoader \<Rightarrow> 'o session \<Rightarrow> bool list list" where
  "validation_equals T testloader s =
     map (batch_equals (model s)) (fst (iter (randperm T) testloader (rng s)))"

text \<open>The unweighted mean of the per-batch accuracies, and the fraction of all samples
  that are classified correctly.\<close>

definition mean_of_batch_means :: "bool list list \<Rightarrow> real" where
  "mean_of_batch_means eqs =
     sum_list (map (\<lambda>eq. sum_list (as_float eq) / real (length eq)) eqs) / real (length eqs)"

definition overall_fraction :: "bool list list \<Rightarrow> real" where
  "overall_fraction eqs = sum_list (as_float (concat eqs)) / real (length (concat eqs))"

section \<open>Example inputs\<close>

text \<open>
  A library whose draws are trivial: no shuffling, no unit dropped, all weights and
  biases zero at first and after every optimizer step. A blank 1x28x28 image.
\<close>

definition zero_params :: params where
  "zero_params = (\<lambda>i j. 0, \<lambda>i. 0)"

definition quiet_torch :: "unit torch" where
  "quiet_torch =
     \<lparr>randperm = (\<lambda>g. []), bernoulli = (\<lambda>g i j. False), initial = (\<lambda>g. zero_params),
      Adam = (\<lambda>m. ()), backward_step = (\<lambda>opt m g x y. ((), \<lambda>k. zero_params))\<rparr>"

definition blank_image :: tensor where
  "blank_image = Array [Array (replicate 28 (Array (replicate 28 (Entry 0))))]"

text \<open>The loader that cell 1 builds over one labelled blank image.\<close>

definition one_sample :: "int \<Rightarrow> DataLoader" where
  "one_sample l = \<lparr>dataset = [(blank_image, l)], batch_size = 64\<rparr>"

text \<open>A model of the notebook's layer sizes whose weights and biases are all zero.\<close>

definition all_zero :: "'a Classifier_scheme \<Rightarrow> bool" where
  "all_zero m \<longleftrightarrow>
     fc1 m = Linear_init zero_params 784 256 \<and> fc2 m = Linear_init zero_params 256 128 \<and>
     fc3 m = Linear_init zero_params 128 64 \<and> fc4 m = Linear_init zero_params 64 10"

text \<open>
  A library tuned so that the model's loss on a blank image labelled 0 is \<open>0.4\<close>
  at first and \<open>0.6\<close> after an optimizer step: all weights are zero, and the
  bias of the last layer is 0 for class 0 and \<open>ln ((exp k - 1) / 9)\<close> for the nine
  other classes, which gives class 0 the log-probability \<open>-k\<close>. Two training
  samples in batches of one make a two-batch epoch.
\<close>

definition head_bias :: "real \<Rightarrow> nat \<Rightarrow> real" where
  "head_bias k i = (if i = 0 then 0 else ln ((exp k - 1) / 9))"

definition tuned_torch :: "unit torch" where
  "tuned_torch =
     \<lparr>randperm = (\<lambda>g. []), bernoulli = (\<lambda>g i j. False),
      initial = (\<lambda>g. (\<lambda>i j. 0, head_bias (2 / 5))),
      Adam = (\<lambda>m. ()),
      backward_step = (\<lambda>opt m g x y. ((), \<lambda>k. (\<lambda>i j. 0, head_bias (3 / 5))))\<rparr>"

text \<open>A model of the notebook's layer sizes whose four layers all hold the given
  weights and biases.\<close>

definition holds :: "params \<Rightarrow> 'a Classifier_scheme \<Rightarrow> bool" where
  "holds wb m \<longleftrightarrow>
     fc1 m = Linear_init wb 784 256 \<and> fc2 m = Linear_init wb 256 128 \<and>
     fc3 m = Linear_init wb 128 64 \<and> fc4 m = Linear_init wb 64 10"

definition two_batches :: DataLoader where
  "two_batches = \<lparr>dataset = [(blank_image, 0), (blank_image, 0)], batch_size = 1\<rparr>"

text \<open>
  A library whose model favours class 0 outright: all weights are zero and the bias
  of every layer is 1 for unit 0 and 0 for every other unit, at first and after
  every optimizer step, so that class 0 alone has the largest probability. The
  loader that cell 1 builds over 65 blank images, 64 labelled 0 and the last one
  with a given label: a pass over it has a full batch of 64 and an incomplete batch
  of one.
\<close>

definition peak :: "nat \<Rightarrow> real" where
  "peak i = (if i = 0 then 1 else 0)"

definition peaked_torch :: "unit torch" where
  "peaked_torch =
     \<lparr>randperm = (\<lambda>g. []), bernoulli = (\<lambda>g i j. False),
      initial = (\<lambda>g. (\<lambda>i j. 0, peak)),
      Adam = (\<lambda>m. ()),
      backward_step = (\<lambda>opt m g x y. ((), \<lambda>k. (\<lambda>i j. 0, peak)))\<rparr>"

definition full_and_one :: "int \<Rightarrow> DataLoader" where
  "full_and_one l =
     \<lparr>dataset = replicate 64 (blank_image, 0) @ [(blank_image, l)], batch_size = 64\<rparr>"

section \<open>Properties of the metric and the loss\<close>

lemma sum_as_float: "sum_list (as_float bs) = real (length (filter (\<lambda>b. b) bs))"
  by (induction bs) (simp_all add: as_float_def)

lemma argmax_from_props:
  "bi < i \<Longrightarrow> (case argmax_from best bi i xs of (v, j) \<Rightarrow>
     (j = bi \<and> v = best \<or> (i \<le> j \<and> j < i + length xs \<and> xs ! (j - i) = v)) \<and> best \<le> v \<and> list_all (\<lambda>x. x \<le> v) xs)"
proof (induction xs arbitrary: best bi i)
  case Nil then show ?case by simp
next
  case (Cons x xs)
  show ?case
  proof (cases "best < x")
    case True
    have "i < Suc i" by simp
    from Cons.IH[OF this, of x] True show ?thesis
      by (auto split: prod.splits simp: nth_Cons')
  next
    case False
    from Cons.prems have "bi < Suc i" by simp
    from Cons.IH[OF this, of best] False show ?thesis
      by (auto split: prod.splits simp: nth_Cons' list_all_iff)
  qed
qed

lemma top1_max:
  assumes "row \<noteq> []"
  shows "snd (top1 row) < length row \<and> row ! snd (top1 row) = fst (top1 row) \<and> list_all (\<lambda>x. x \<le> fst (top1 row)) row"
proof -
  from assms obtain x xs where r: "row = x # xs" by (cases row) auto
  have "(0::nat) < 1" by simp
  from argmax_from_props[OF this, of x xs] show ?thesis
    unfolding r by (auto split: prod.splits simp: nth_Cons' list_all_iff)
qed

lemma mean_equals:
  "length labels = length top_cls \<Longrightarrow> labels \<noteq> [] \<Longrightarrow>
     mean (as_float (map (\<lambda>(c, l). int c = l) (zip top_cls labels)))
       = Tensor (Fin (fraction_correct top_cls labels))"
proof -
  assume len: "length labels = length top_cls" and ne: "labels \<noteq> []"
  then have "top_cls \<noteq> []" by auto
  with len ne have "as_float (map (\<lambda>(c, l). int c = l) (zip top_cls labels)) \<noteq> []"
    by (simp add: as_float_def)
  moreover have "length (as_float (map (\<lambda>(c, l). int c = l) (zip top_cls labels))) = length labels"
    using len by (simp add: as_float_def)
  ultimately show ?thesis
    by (simp add: mean_def sum_as_float fraction_correct_def comp_def)
qed

lemma nll_sum_ok:
  "length rows = length ls \<Longrightarrow>
   list_all (\<lambda>(row, l). 0 \<le> l \<and> l < int (length row)) (zip rows ls) \<Longrightarrow>
   nll_sum rows ls acc = Inr (acc - (\<Sum>i<length rows. rows ! i ! nat (ls ! i)))"
proof (induction rows ls arbitrary: acc rule: list_induct2)
  case Nil then show ?case by simp
next
  case (Cons r rs l ls)
  then show ?case by (simp add: sum.lessThan_Suc_shift del: sum.lessThan_Suc)
qed

lemma nll_sum_bad:
  "length rows = length ls \<Longrightarrow>
   \<not> list_all (\<lambda>(row, l). 0 \<le> l \<and> l < int (length row)) (zip rows ls) \<Longrightarrow>
   nll_sum rows ls acc = Inl IndexError"
proof (induction rows ls arbitrary: acc rule: list_induct2)
  case Nil then show ?case by simp
next
  case (Cons r rs l ls)
  then show ?case by auto
qed

lemma zip_in_range:
  "length rows = length ls \<Longrightarrow> list_all (\<lambda>row. length row = C) rows \<Longrightarrow>
   list_all (\<lambda>(row, l). 0 \<le> l \<and> l < int (length row)) (zip rows ls) = list_all (\<lambda>l. 0 \<le> l \<and> l < int C) ls"
  by (induction rows ls rule: list_induct2) auto

text \<open>
  Claim C8. For log-probabilities with \<open>C\<close> classes per sample: when there is one
  label per sample, at least one sample, and every label lies in \<open>[0, C)\<close>, the loss
  is the scalar \<open>-(\<Sum>i. log_ps[i][labels[i]]) / n\<close>, the negative mean log-probability
  of the true classes; when some label lies outside \<open>[0, C)\<close>, the loss computation
  fails.
\<close>

theorem NLLLoss_contract:
  assumes "list_all (\<lambda>row. length row = C) log_ps"
  shows "(length labels = length log_ps \<and> log_ps \<noteq> [] \<and> list_all (\<lambda>l. 0 \<le> l \<and> l < int C) labels \<longrightarrow>
            NLLLoss log_ps labels =
              Inr (Tensor (Fin (- (\<Sum>i<length log_ps. log_ps ! i ! nat (labels ! i)) / real (length log_ps)))))
       \<and> (\<not> list_all (\<lambda>l. 0 \<le> l \<and> l < int C) labels \<longrightarrow> (\<exists>e. NLLLoss log_ps labels = Inl e))"
proof (intro conjI impI)
  assume a: "length labels = length log_ps \<and> log_ps \<noteq> [] \<and> list_all (\<lambda>l. 0 \<le> l \<and> l < int C) labels"
  then have len: "length log_ps = length labels" by simp
  from a assms have "list_all (\<lambda>(row, l). 0 \<le> l \<and> l < int (length row)) (zip log_ps labels)"
    by (simp add: zip_in_range[OF len assms])
  from nll_sum_ok[OF len this, of 0] a
  show "NLLLoss log_ps labels =
              Inr (Tensor (Fin (- (\<Sum>i<length log_ps. log_ps ! i ! nat (labels ! i)) / real (length log_ps))))"
    by (simp add: NLLLoss_def)
next
  assume b: "\<not> list_all (\<lambda>l. 0 \<le> l \<and> l < int C) labels"
  show "\<exists>e. NLLLoss log_ps labels = Inl e"
  proof (cases "length log_ps = length labels")
    case True
    from b have "\<not> list_all (\<lambda>(row, l). 0 \<le> l \<and> l < int (length row)) (zip log_ps labels)"
      by (simp add: zip_in_range[OF True assms])
    from nll_sum_bad[OF True this, of 0] True show ?thesis by (simp add: NLLLoss_def)
  next
    case False
    then show ?thesis by (simp add: NLLLoss_def)
  qed
qed


theorem NLLLoss_contract_witness:
  "NLLLoss [[-1, -2], [-3, -4]] [0, 1] = Inr (Tensor (Fin (5 / 2)))
   \<and> (\<exists>e. NLLLoss [[-1, -2], [-3, -4]] [0, 2] = Inl e)"
  using NLLLoss_contract[of 2 "[[-1, -2], [-3, -4]]" "[0, 1]"]
        NLLLoss_contract[of 2 "[[-1, -2], [-3, -4]]" "[0, 2]"]
  by (simp add: lessThan_Suc numeral_2_eq_2)

text \<open>
  Claim C4. For every batch of class probabilities with one label per row, the
  top-1 class of each row is an index of a largest entry of that row, and the batch
  accuracy (the mean of the comparison \<^verbatim>\<open>top_class == labels\<close> as floats) is the
  number of samples whose top-1 class equals the label divided by the number of
  samples. For the predicted classes \<open>[9,9,0,0]\<close> and the labels \<open>[9,0,0,0]\<close>
  it is \<open>0.75\<close>.
\<close>

theorem batch_accuracy:
  assumes "list_all (\<lambda>row. row \<noteq> []) ps" and "length labels = length ps" and "ps \<noteq> []"
  shows "(\<exists>top_p top_cls eq.
           topk1 ps = Inr (top_p, top_cls) \<and> equals top_cls labels = Inr eq
         \<and> list_all2 (\<lambda>row c. c < length row \<and> list_all (\<lambda>x. x \<le> row ! c) row) ps top_cls
         \<and> mean (as_float eq) = Tensor (Fin (fraction_correct top_cls labels)))
       \<and> map_sum id (\<lambda>eq. mean (as_float eq)) (equals [9, 9, 0, 0] [9, 0, 0, 0])
           = Inr (Tensor (Fin 0.75))"
proof -
  let ?tc = "map (\<lambda>row. snd (top1 row)) ps"
  have 1: "topk1 ps = Inr (map (\<lambda>row. fst (top1 row)) ps, ?tc)"
    using assms(1) by (simp add: topk1_def)
  have 2: "equals ?tc labels = Inr (map (\<lambda>(c, l). int c = l) (zip ?tc labels))"
    using assms(2) by (simp add: equals_def)
  have 3: "list_all2 (\<lambda>row c. c < length row \<and> list_all (\<lambda>x. x \<le> row ! c) row) ps ?tc"
    using assms(1) top1_max by (auto simp: list_all2_conv_all_nth list_all_iff)
  have 4: "mean (as_float (map (\<lambda>(c, l). int c = l) (zip ?tc labels))) = Tensor (Fin (fraction_correct ?tc labels))"
    using assms by (intro mean_equals) auto
  have 5: "map_sum id (\<lambda>eq. mean (as_float eq)) (equals [9, 9, 0, 0] [9, 0, 0, 0])
             = Inr (Tensor (Fin 0.75))"
    by (simp add: equals_def mean_def as_float_def)
  from 1 2 3 4 have "\<exists>top_p top_cls eq.
           topk1 ps = Inr (top_p, top_cls) \<and> equals top_cls labels = Inr eq
         \<and> list_all2 (\<lambda>row c. c < length row \<and> list_all (\<lambda>x. x \<le> row ! c) row) ps top_cls
         \<and> mean (as_float eq) = Tensor (Fin (fraction_correct top_cls labels))"
    by blast
  with 5 show ?thesis by blast
qed

theorem batch_accuracy_witness:
  "\<exists>top_p top_cls eq.
      topk1 [[1/10, 9/10], [8/10, 2/10]] = Inr (top_p, top_cls) \<and> equals top_cls [1, 1] = Inr eq
    \<and> top_cls = [1, 0] \<and> mean (as_float eq) = Tensor (Fin (1/2))"
  using batch_accuracy[of "[[1/10, 9/10], [8/10, 2/10]]" "[1, 1]"]
  by (simp add: topk1_def equals_def fraction_correct_def)

section \<open>The forward pass\<close>

lemma Dropout_eval: "Dropout_forward p EvalMode bern g xs = (xs, g)"
  by (simp add: Dropout_forward_def)

lemma forward_eval:
  "mode self = EvalMode \<Longrightarrow>
   DropoutClassifier_forward bern self g x = (Classifier_forward self x, g)"
  by (simp add: DropoutClassifier_forward_def Classifier_forward_def Dropout_eval
           split: sum.splits)

lemma Classifier_forward_cong:
  "fc1 a = fc1 b \<Longrightarrow> fc2 a = fc2 b \<Longrightarrow> fc3 a = fc3 b \<Longrightarrow> fc4 a = fc4 b \<Longrightarrow>
   Classifier_forward a x = Classifier_forward b x"
  by (simp add: Classifier_forward_def split: sum.splits)

lemma eval_eval: "eval (eval m) = eval m"
  by (simp add: eval_def)

lemma Classifier_forward_eval: "Classifier_forward (eval m) x = Classifier_forward m x"
  by (rule Classifier_forward_cong) (simp_all add: eval_def)

lemma inference_eq:
  "inference bern m g img =
     (map_sum id (map (map exp))
        (case view_1_784 img of Inl e \<Rightarrow> Inl e | Inr i \<Rightarrow> Classifier_forward m i),
      eval m, g)"
  by (simp add: inference_def forward_eval eval_def Let_def Classifier_forward_eval[unfolded eval_def] split: sum.splits)

text \<open>Shapes along the layers.\<close>

lemma length_affine: "length (affine l x) = out_features l"
  by (simp add: affine_def)

lemma Linear_forward_ok:
  "list_all (\<lambda>x. length x = in_features l) xs \<Longrightarrow> Linear_forward l xs = Inr (map (affine l) xs)"
  by (simp add: Linear_forward_def)

lemma widths_affine: "list_all (\<lambda>x. length x = out_features l) (map (affine l) xs)"
  by (simp add: list_all_iff length_affine)

lemma widths_relu:
  "list_all (\<lambda>x. length x = n) xs \<Longrightarrow> list_all (\<lambda>x. length x = n) (relu xs)"
  by (simp add: list_all_iff relu_def)

lemma widths_apply_mask:
  "list_all (\<lambda>x. length x = n) xs \<Longrightarrow> list_all (\<lambda>x. length x = n) (apply_mask p z xs)"
  by (auto simp: list_all_iff apply_mask_def in_set_enumerate_eq)

lemma Dropout_forward_cases:
  "Dropout_forward p m bern g xs =
     (if m = TrainMode then (apply_mask p (bern g) xs, Suc g) else (xs, g))"
  by (cases m) (simp_all add: Dropout_forward_def)

lemma widths_dropout:
  "list_all (\<lambda>x. length x = n) xs \<Longrightarrow>
   list_all (\<lambda>x. length x = n) (fst (Dropout_forward p m bern g xs))"
  by (simp add: Dropout_forward_cases widths_apply_mask)

lemma length_dropout: "length (fst (Dropout_forward p m bern g xs)) = length xs"
  by (simp add: Dropout_forward_cases apply_mask_def)

lemma snd_dropout:
  "snd (Dropout_forward p m bern g xs) = (if m = TrainMode then Suc g else g)"
  by (simp add: Dropout_forward_cases)

lemma affine_weightless:
  "weight l = (\<lambda>i j. 0) \<Longrightarrow> affine l x = map (bias l) [0..<out_features l]"
  by (simp add: affine_def map_replicate_const sum_list_replicate)

text \<open>A model whose last layer has zero weights returns the log-softmax of that layer's bias.\<close>

lemma forward_weightless:
  assumes s12: "out_features (fc1 m) = in_features (fc2 m)"
      and s23: "out_features (fc2 m) = in_features (fc3 m)"
      and s34: "out_features (fc3 m) = in_features (fc4 m)"
      and w4: "weight (fc4 m) = (\<lambda>i j. 0)"
      and inp: "list_all (\<lambda>x. length x = in_features (fc1 m)) (map flat (t # ts))"
  shows "DropoutClassifier_forward bern m g (Array (t # ts)) =
           (Inr (log_softmax (map (\<lambda>x. map (bias (fc4 m)) [0..<out_features (fc4 m)]) (t # ts))),
            if mode m = TrainMode then g + 3 else g)"
proof -
  let ?D = "Dropout_forward (dropout m) (mode m) bern"
  define a1 where "a1 = map (affine (fc1 m)) (map flat (t # ts))"
  define d1 where "d1 = ?D g (relu a1)"
  define a2 where "a2 = map (affine (fc2 m)) (fst d1)"
  define d2 where "d2 = ?D (snd d1) (relu a2)"
  define a3 where "a3 = map (affine (fc3 m)) (fst d2)"
  define d3 where "d3 = ?D (snd d2) (relu a3)"
  have l1: "Linear_forward (fc1 m) (map flat (t # ts)) = Inr a1"
    unfolding a1_def by (rule Linear_forward_ok[OF inp])
  have "list_all (\<lambda>x. length x = in_features (fc2 m)) (fst d1)"
    unfolding d1_def a1_def s12[symmetric] by (intro widths_dropout widths_relu widths_affine)
  then have l2: "Linear_forward (fc2 m) (fst d1) = Inr a2"
    unfolding a2_def by (rule Linear_forward_ok)
  have "list_all (\<lambda>x. length x = in_features (fc3 m)) (fst d2)"
    unfolding d2_def a2_def s23[symmetric] by (intro widths_dropout widths_relu widths_affine)
  then have l3: "Linear_forward (fc3 m) (fst d2) = Inr a3"
    unfolding a3_def by (rule Linear_forward_ok)
  have w: "list_all (\<lambda>x. length x = in_features (fc4 m)) (fst d3)"
    unfolding d3_def a3_def s34[symmetric] by (intro widths_dropout widths_relu widths_affine)
  have len: "length (fst d3) = length (t # ts)"
    unfolding d3_def a3_def d2_def a2_def d1_def a1_def
    by (simp add: length_dropout relu_def)
  have "map (affine (fc4 m)) (fst d3) = map (\<lambda>x. map (bias (fc4 m)) [0..<out_features (fc4 m)]) (fst d3)"
    by (simp add: affine_weightless[OF w4])
  also have "\<dots> = replicate (length (t # ts)) (map (bias (fc4 m)) [0..<out_features (fc4 m)])"
    by (simp only: map_replicate_const len)
  also have "\<dots> = map (\<lambda>x. map (bias (fc4 m)) [0..<out_features (fc4 m)]) (t # ts)"
    by (simp only: map_replicate_const)
  finally have l4: "Linear_forward (fc4 m) (fst d3) =
      Inr (map (\<lambda>x. map (bias (fc4 m)) [0..<out_features (fc4 m)]) (t # ts))"
    using Linear_forward_ok[OF w] by simp
  have g3: "snd d3 = (if mode m = TrainMode then g + 3 else g)"
    unfolding d3_def d2_def d1_def by (simp add: snd_dropout)
  have "DropoutClassifier_forward bern m g (Array (t # ts)) =
          (Inr (log_softmax (map (\<lambda>x. map (bias (fc4 m)) [0..<out_features (fc4 m)]) (t # ts))), snd d3)"
    unfolding DropoutClassifier_forward_def
    by (simp only: view_rows.simps sum.case l1 l2 l3 l4 prod.case_eq_if
          d1_def[symmetric] d2_def[symmetric] d3_def[symmetric])
  with g3 show ?thesis by simp
qed

lemma concat_replicate_replicate: "concat (replicate n (replicate k x)) = replicate (n * k) x"
  by (induction n) (simp_all add: replicate_add)

lemma flat_blank_image: "flat blank_image = replicate 784 0"
  by (simp add: blank_image_def concat_replicate_replicate map_replicate_const)

lemma log_softmax_const:
  "0 < n \<Longrightarrow> log_softmax (map (\<lambda>x. map (\<lambda>i. 0) [0..<n]) xs) = map (\<lambda>x. replicate n (- ln (real n))) xs"
  by (simp add: log_softmax_def map_replicate_const sum_list_replicate)

text \<open>The model that \<open>quiet_torch\<close> builds and keeps.\<close>

lemma zero_model_forward:
  assumes "list_all (\<lambda>x. length x = 784) (map flat (t # ts))"
      and "fc1 m = Linear_init zero_params 784 256" and "fc2 m = Linear_init zero_params 256 128"
      and "fc3 m = Linear_init zero_params 128 64" and "fc4 m = Linear_init zero_params 64 10"
  shows "DropoutClassifier_forward bern m g (Array (t # ts)) =
           (Inr (map (\<lambda>x. replicate 10 (- ln 10)) (t # ts)), if mode m = TrainMode then g + 3 else g)"
proof -
  have "DropoutClassifier_forward bern m g (Array (t # ts)) =
           (Inr (log_softmax (map (\<lambda>x. map (bias (fc4 m)) [0..<out_features (fc4 m)]) (t # ts))),
            if mode m = TrainMode then g + 3 else g)"
    using assms by (intro forward_weightless) (simp_all add: Linear_init_def zero_params_def)
  moreover have "log_softmax (map (\<lambda>x. map (bias (fc4 m)) [0..<out_features (fc4 m)]) (t # ts))
      = map (\<lambda>x. replicate 10 (- ln 10)) (t # ts)"
    using log_softmax_const[of 10 "t # ts"] assms(5) by (simp add: Linear_init_def zero_params_def)
  ultimately show ?thesis by simp
qed

text \<open>
  Claim C7. In evaluation mode the dropout step returns its input and draws nothing,
  and the forward pass of a DropoutClassifier in evaluation mode returns what the
  forward pass of any Classifier holding the same four layers returns, for every
  input and every parameter setting.
\<close>

theorem eval_forward_without_dropout:
  "Dropout_forward p EvalMode bern g xs = (xs, g)
   \<and> DropoutClassifier_forward bern (eval m) g x
       = (Classifier_forward (c\<lparr>fc1 := fc1 m, fc2 := fc2 m, fc3 := fc3 m, fc4 := fc4 m\<rparr>) x, g)"
proof -
  have "mode (eval m) = EvalMode" by (simp add: eval_def)
  then have "DropoutClassifier_forward bern (eval m) g x = (Classifier_forward (eval m) x, g)"
    by (rule forward_eval)
  moreover have "Classifier_forward (eval m) x
      = Classifier_forward (c\<lparr>fc1 := fc1 m, fc2 := fc2 m, fc3 := fc3 m, fc4 := fc4 m\<rparr>) x"
    by (rule Classifier_forward_cong) (simp_all add: eval_def)
  ultimately show ?thesis by (simp add: Dropout_eval)
qed

text \<open>
  Claim C10. When the inference cell has run on an image and left a model and a
  generator state behind, running it again on the same image from what it left
  returns the same probabilities (or the same error) and leaves the same model and
  generator state; the run itself puts the model in evaluation mode, draws nothing
  and changes no parameter.
\<close>

theorem inference_repeatable:
  assumes "inference bern m g img = (ps, m', g')"
  shows "inference bern m' g' img = (ps, m', g') \<and> g' = g \<and> m' = eval m"
  using assms by (auto simp: inference_eq eval_eval Classifier_forward_eval split: sum.splits)

lemma blank_inference:
  "inference (bernoulli quiet_torch) (model (fresh_session quiet_torch 0 [])) 4 blank_image
     = (Inr [replicate 10 (1 / 10)], eval (model (fresh_session quiet_torch 0 [])), 4)"
proof -
  let ?m = "model (fresh_session quiet_torch 0 [])"
  have v: "view_1_784 blank_image = Inr (Array [Array (map Entry (replicate 784 0))])"
    by (simp add: view_1_784_def flat_blank_image)
  have fl: "list_all (\<lambda>x. length x = 784) (map flat [Array (map Entry (replicate 784 0))])"
    by (simp add: comp_def map_replicate_const concat_replicate_replicate[where k=1, simplified])
  have "DropoutClassifier_forward (bernoulli quiet_torch) (eval ?m) 4 (Array [Array (map Entry (replicate 784 0))])
      = (Inr (map (\<lambda>x. replicate 10 (- ln 10)) [Array (map Entry (replicate 784 0))]),
         if mode (eval ?m) = TrainMode then 4 + 3 else 4)"
    by (rule zero_model_forward[OF fl])
       (simp_all add: fresh_session_def DropoutClassifier_init_def quiet_torch_def eval_def)
  then have "DropoutClassifier_forward (bernoulli quiet_torch) (eval ?m) 4 (Array [Array (map Entry (replicate 784 0))])
      = (Inr [replicate 10 (- ln 10)], 4)"
    by (simp add: eval_def)
  then show ?thesis
    by (simp add: inference_def v Let_def exp_minus inverse_eq_divide)
qed

theorem inference_repeatable_witness:
  "inference (bernoulli quiet_torch) (eval (model (fresh_session quiet_torch 0 []))) 4 blank_image
     = (Inr [replicate 10 (1 / 10)], eval (model (fresh_session quiet_torch 0 [])), 4)"
  using inference_repeatable[OF blank_inference] by simp

section \<open>Loaders\<close>

lemma chunks_Nil: "chunks n [] = []"
  by (simp add: chunks.simps)

lemma chunks_zero: "chunks 0 xs = []"
  by (simp add: chunks.simps)

lemma chunks_step: "0 < n \<Longrightarrow> xs \<noteq> [] \<Longrightarrow> chunks n xs = take n xs # chunks n (drop n xs)"
  by (subst chunks.simps) simp

lemma ceil_div_step:
  fixes L n :: nat
  assumes "0 < n" "0 < L"
  shows "(L + n - 1) div n = Suc ((L - n + n - 1) div n)"
proof (cases "n \<le> L")
  case True
  then have "L + n - 1 = (L - n + n - 1) + n" using assms by simp
  then show ?thesis using assms by (simp del: add_diff_assoc add_diff_assoc2)
next
  case False
  then have a: "L - n + n - 1 = n - 1" by simp
  have "(L + n - 1) div n = 1"
  proof -
    have "n \<le> L + n - 1" using assms by simp
    moreover have "L + n - 1 < 2 * n" using False assms by simp
    ultimately show ?thesis
      by (metis Suc_1 div_nat_eqI mult.commute nat_mult_1_right)
  qed
  with a assms show ?thesis by simp
qed

lemma length_chunks: "0 < n \<Longrightarrow> length (chunks n xs) = (length xs + n - 1) div n"
proof (induction n xs rule: chunks.induct)
  case (1 n xs)
  show ?case
  proof (cases "xs = []")
    case True
    with "1.prems" show ?thesis by (simp add: chunks_Nil)
  next
    case False
    with "1.prems" have IH: "length (chunks n (drop n xs)) = (length (drop n xs) + n - 1) div n"
      using "1.IH" by simp
    from False have "0 < length xs" by simp
    from ceil_div_step[OF "1.prems" this] IH False "1.prems" show ?thesis
      by (simp add: chunks_step)
  qed
qed

lemma chunks_nonempty: "list_all (\<lambda>c. c \<noteq> []) (chunks n xs)"
proof (induction n xs rule: chunks.induct)
  case (1 n xs)
  show ?case
  proof (cases "n = 0 \<or> xs = []")
    case True
    then show ?thesis by (auto simp: chunks_Nil chunks_zero)
  next
    case False
    with "1.IH" show ?thesis by (simp add: chunks_step)
  qed
qed

lemma length_swap: "length (swap xs ij) = length xs"
  by (cases ij) simp

lemma length_shuffle: "length (shuffle sw xs) = length xs"
  unfolding shuffle_def by (induction sw arbitrary: xs) (simp_all add: length_swap del: swap.simps)

lemma length_iter: "0 < batch_size dl \<Longrightarrow> length (fst (iter perm dl g)) = len dl"
  by (simp add: iter_def len_def length_chunks length_shuffle)

lemma snd_iter: "snd (iter perm dl g) = Suc g"
  by (simp add: iter_def)

lemma shuffle_Nil: "shuffle sw [] = []"
  using length_shuffle[of sw "[]"] by simp

lemma iter_empty: "dataset dl = [] \<Longrightarrow> iter perm dl g = ([], Suc g)"
  by (simp add: iter_def chunks_Nil shuffle_Nil)

lemma len_zero_iff: "0 < batch_size dl \<Longrightarrow> len dl = 0 \<longleftrightarrow> dataset dl = []"
proof -
  assume b: "0 < batch_size dl"
  show ?thesis
  proof
    assume "len dl = 0"
    then have "length (dataset dl) + batch_size dl - 1 < batch_size dl"
      using b by (simp add: len_def div_eq_0_iff)
    then have "length (dataset dl) = 0" using b by linarith
    then show "dataset dl = []" by simp
  next
    assume "dataset dl = []"
    then show "len dl = 0" using b by (simp add: len_def)
  qed
qed

section \<open>What the loops keep\<close>

lemma load_all_keeps:
  "mode (load_all new m) = mode m" "dropout (load_all new m) = dropout m"
  by (simp_all add: load_all_def)

lemma train_batches_keeps:
  "train_batches T bs rl s = (r, s') \<Longrightarrow>
     mode (model s') = mode (model s) \<and> train_losses s' = train_losses s
   \<and> test_losses s' = test_losses s \<and> printed s' = printed s"
proof (induction T bs rl s rule: train_batches.induct)
  case (1 T rl s)
  then show ?case by simp
next
  case (2 T images labels rest rl s)
  then show ?case
    by (auto split: prod.splits sum.splits simp: load_all_keeps)
qed

lemma validation_batches_keeps:
  "validation_batches T bs acc s = (r, s') \<Longrightarrow>
     model s' = model s \<and> optimizer s' = optimizer s \<and> train_losses s' = train_losses s
   \<and> test_losses s' = test_losses s \<and> printed s' = printed s"
proof (induction T bs acc s rule: validation_batches.induct)
  case (1 T loss accuracy s)
  then show ?case by simp
next
  case (2 T images labels rest loss accuracy s)
  then show ?case
    by (auto split: prod.splits sum.splits)
qed

lemma validation_keeps:
  assumes "validation T tel s = (r, s')"
  shows "model s' = eval (model s) \<and> optimizer s' = optimizer s \<and> train_losses s' = train_losses s
   \<and> test_losses s' = test_losses s \<and> printed s' = printed s"
proof -
  obtain bs g where i: "iter (randperm T) tel (rng s) = (bs, g)" by (cases "iter (randperm T) tel (rng s)")
  with assms have "validation_batches T bs (PyNum (Fin 0), PyNum (Fin 0))
      (s\<lparr>model := eval (model s), rng := g\<rparr>) = (r, s')"
    by (simp add: validation_def Let_def)
  from validation_batches_keeps[OF this] show ?thesis by simp
qed

lemma last_item_snoc: "last_item (xs @ [x]) = Inr x"
proof (cases "xs @ [x]")
  case Nil
  then show ?thesis by simp
next
  case (Cons a list)
  have "last (xs @ [x]) = x" by simp
  with Cons show ?thesis by (simp add: last_item_def del: last_snoc last_appendR)
qed

lemma epoch_report_raised:
  "epoch_report e n ntr nte rl l a s = (Inl err, s') \<Longrightarrow>
     model s' = model s \<and> printed s' = printed s"
  by (auto simp: epoch_report_def Let_def last_item_snoc split: sum.splits)

lemma epoch_report_returned:
  "epoch_report e n ntr nte rl l a s = (Inr u, s') \<Longrightarrow>
     (\<exists>x y z. truediv rl ntr = Inr x \<and> truediv l nte = Inr y \<and> truediv a nte = Inr z
        \<and> s' = s\<lparr>train_losses := train_losses s @ [x], test_losses := test_losses s @ [y],
                 printed := printed s @ [\<lparr>Epoch = e + 1, Of = n, Train_Loss = x,
                    Test_Loss = y, Accuracy = mul z 100\<rparr>],
                 model := train (model s)\<rparr>)"
  by (auto simp: epoch_report_def Let_def last_item_snoc split: sum.splits)

text \<open>With positive batch counts the averaging and the report complete.\<close>

lemma truediv_positive: "0 < n \<Longrightarrow> \<exists>q. truediv x n = Inr q"
  by (cases "(x, n)" rule: truediv.cases) auto

lemma epoch_report_completes:
  assumes "0 < ntr" and "0 < nte"
  shows "fst (epoch_report e n ntr nte rl l a s) = Inr ()"
proof -
  from truediv_positive[OF assms(1), of rl] obtain x where x: "truediv rl ntr = Inr x" by blast
  from truediv_positive[OF assms(2), of l] obtain y where y: "truediv l nte = Inr y" by blast
  from truediv_positive[OF assms(2), of a] obtain z where z: "truediv a nte = Inr z" by blast
  show ?thesis by (simp add: epoch_report_def Let_def x y z last_item_snoc)
qed

text \<open>The phases of an epoch, named.\<close>

lemma run_epoch_phases:
  "run_epoch T trl tel n e s =
     (case train_batches T (fst (iter (randperm T) trl (rng s))) (PyNum (Fin 0)) (s\<lparr>rng := Suc (rng s)\<rparr>) of
        (Inl err, s1) \<Rightarrow> (Inl err, s1)
      | (Inr rl, s1) \<Rightarrow>
          (case validation T tel s1 of
             (Inl err, s2) \<Rightarrow> (Inl err, s2)
           | (Inr (l, a), s2) \<Rightarrow> epoch_report e n (len trl) (len tel) rl l a s2))"
  by (simp add: run_epoch_def iter_def split: prod.splits)

lemma run_epoch_returned:
  assumes "run_epoch T trl tel n e s = (Inr u, s')"
  shows "mode (model s') = TrainMode"
proof -
  from assms obtain rl l a s2 where
    "epoch_report e n (len trl) (len tel) rl l a s2 = (Inr u, s')"
    by (auto simp: run_epoch_phases split: prod.splits sum.splits)
  from epoch_report_returned[OF this] show ?thesis by (auto simp: train_def)
qed

lemma run_epoch_raised_late:
  assumes t: "train_batches T (fst (iter (randperm T) trl (rng s))) (PyNum (Fin 0)) (s\<lparr>rng := Suc (rng s)\<rparr>) = (Inr rl, s1)"
      and r: "run_epoch T trl tel n e s = (Inl err, s')"
  shows "mode (model s') = EvalMode"
proof (cases "validation T tel s1")
  case (Pair v s2)
  from validation_keeps[OF Pair] have m2: "mode (model s2) = EvalMode" by (simp add: eval_def)
  show ?thesis
  proof (cases v)
    case (Inl err')
    with r t Pair have "s' = s2" by (simp add: run_epoch_phases)
    with m2 show ?thesis by simp
  next
    case (Inr la)
    obtain l a where "la = (l, a)" by (cases la)
    with Inr r t Pair have "epoch_report e n (len trl) (len tel) rl l a s2 = (Inl err, s')"
      by (simp add: run_epoch_phases)
    from epoch_report_raised[OF this] m2 show ?thesis by simp
  qed
qed

section \<open>Runs on the example inputs\<close>

lemma argmax_from_replicate: "argmax_from v b i (replicate n v) = (v, b)"
  by (induction n arbitrary: i) simp_all

lemma top1_replicate: "0 < n \<Longrightarrow> top1 (replicate n v) = (v, 0)"
  by (cases n) (simp_all add: argmax_from_replicate)

lemma topk1_uniform: "topk1 [replicate 10 v] = Inr ([v], [0])"
  by (simp add: topk1_def top1_replicate)

lemma NLLLoss_uniform:
  "NLLLoss [replicate 10 c] [l] =
     (if 0 \<le> l \<and> l < 10 then Inr (Tensor (Fin (- c))) else Inl IndexError)"
proof (cases "0 \<le> l \<and> l < 10")
  case True
  then have "nat l < 10" by linarith
  then have "replicate 10 c ! nat l = c" by (rule nth_replicate)
  with True show ?thesis by (simp add: NLLLoss_def)
next
  case False
  then show ?thesis by (auto simp: NLLLoss_def)
qed

lemma all_zero_load: "all_zero m \<Longrightarrow> load_all (\<lambda>k. zero_params) m = m"
  by (simp add: all_zero_def load_all_def load_def Linear_init_def zero_params_def)

lemma all_zero_mode: "all_zero (m\<lparr>mode := x\<rparr>) = all_zero m"
  by (simp add: all_zero_def)

lemma all_zero_fresh: "all_zero (model (fresh_session quiet_torch g out))"
  by (simp add: all_zero_def fresh_session_def DropoutClassifier_init_def quiet_torch_def)

lemma mode_fresh: "mode (model (fresh_session T g out)) = TrainMode"
  by (simp add: fresh_session_def DropoutClassifier_init_def)

lemma all_zero_forward:
  assumes "all_zero m"
  shows "DropoutClassifier_forward bern m g (Array [blank_image]) =
           (Inr [replicate 10 (- ln 10)], if mode m = TrainMode then g + 3 else g)"
proof -
  have fl: "list_all (\<lambda>x. length x = 784) (map flat [blank_image])"
    by (simp add: flat_blank_image)
  from assms zero_model_forward[OF fl, of m bern g] show ?thesis
    by (simp add: all_zero_def)
qed

lemma iter_one_sample:
  "iter (randperm quiet_torch) (one_sample l) g = ([(Array [blank_image], [l])], Suc g)"
  by (simp add: iter_def one_sample_def quiet_torch_def shuffle_def chunks_step chunks_Nil collate_def)

lemma len_one_sample: "len (one_sample l) = 1"
  by (simp add: len_def one_sample_def)

lemma train_one_sample:
  assumes z: "all_zero (model s)" and m: "mode (model s) = TrainMode"
  shows "train_batches quiet_torch [(Array [blank_image], [l])] (PyNum (Fin 0)) s =
           (if 0 \<le> l \<and> l < 10 then (Inr (PyNum (Fin (ln 10))), s\<lparr>rng := rng s + 3\<rparr>)
            else (Inl IndexError, s\<lparr>rng := rng s + 3\<rparr>))"
proof -
  have f: "DropoutClassifier_forward (bernoulli quiet_torch) (model s) (rng s) (Array [blank_image])
            = (Inr [replicate 10 (- ln 10)], rng s + 3)"
    using all_zero_forward[OF z] m by simp
  have b: "backward_step quiet_torch opt mo g x y = ((), \<lambda>k. zero_params)" for opt mo g x y
    by (simp add: quiet_torch_def)
  show ?thesis
    by (simp add: f b NLLLoss_uniform all_zero_load[OF z])
qed

lemma validate_one_sample:
  assumes z: "all_zero (model s)"
  shows "validation quiet_torch (one_sample l) s =
           (if 0 \<le> l \<and> l < 10
            then (Inr (Tensor (Fin (ln 10)), Tensor (Fin (if l = 0 then 1 else 0))),
                  s\<lparr>model := eval (model s), rng := Suc (rng s)\<rparr>)
            else (Inl IndexError, s\<lparr>model := eval (model s), rng := Suc (rng s)\<rparr>))"
proof -
  have z': "all_zero (eval (model s))" using z by (simp add: eval_def all_zero_mode)
  have f: "DropoutClassifier_forward (bernoulli quiet_torch) (eval (model s)) g (Array [blank_image])
            = (Inr [replicate 10 (- ln 10)], g)" for g
    using all_zero_forward[OF z'] by (simp add: eval_def)
  show ?thesis
    by (simp add: validation_def Let_def iter_one_sample f NLLLoss_uniform topk1_uniform
          equals_def mean_def as_float_def)
qed

lemma epoch_one_sample:
  assumes z: "all_zero (model s)" and m: "mode (model s) = TrainMode"
      and a: "0 \<le> a \<and> a < 10" and b: "0 \<le> b \<and> b < 10"
  shows "run_epoch quiet_torch (one_sample a) (one_sample b) n e s =
           (Inr (), s\<lparr>rng := rng s + 5,
                      train_losses := train_losses s @ [PyNum (Fin (ln 10))],
                      test_losses := test_losses s @ [Tensor (Fin (ln 10))],
                      printed := printed s @
                        [\<lparr>Epoch = e + 1, Of = n, Train_Loss = PyNum (Fin (ln 10)),
                          Test_Loss = Tensor (Fin (ln 10)),
                          Accuracy = Tensor (Fin (if b = 0 then 100 else 0))\<rparr>]\<rparr>)"
proof -
  let ?s0 = "s\<lparr>rng := Suc (rng s)\<rparr>"
  have t: "train_batches quiet_torch [(Array [blank_image], [a])] (PyNum (Fin 0)) ?s0
             = (Inr (PyNum (Fin (ln 10))), ?s0\<lparr>rng := rng ?s0 + 3\<rparr>)"
    using train_one_sample[of ?s0 a] z m a by simp
  have v: "validation quiet_torch (one_sample b) (?s0\<lparr>rng := rng ?s0 + 3\<rparr>)
             = (Inr (Tensor (Fin (ln 10)), Tensor (Fin (if b = 0 then 1 else 0))),
                s\<lparr>model := eval (model s), rng := rng s + 5\<rparr>)"
    using validate_one_sample[of "?s0\<lparr>rng := rng ?s0 + 3\<rparr>" b] z b by simp
  have tr: "train (eval (model s)) = model s"
    using m by (simp add: train_def eval_def)
  show ?thesis
    using t v
    by (simp add: run_epoch_def iter_one_sample len_one_sample epoch_report_def Let_def
          last_item_snoc tr)
qed

section \<open>The mode after the validation block\<close>

lemma epoch_bad_label:
  assumes z: "all_zero (model s)" and m: "mode (model s) = TrainMode"
      and a: "0 \<le> a \<and> a < 10" and b: "\<not> (0 \<le> b \<and> b < 10)"
  shows "run_epoch quiet_torch (one_sample a) (one_sample b) n e s =
           (Inl IndexError, s\<lparr>model := eval (model s), rng := rng s + 5\<rparr>)"
proof -
  let ?s0 = "s\<lparr>rng := Suc (rng s)\<rparr>"
  have t: "train_batches quiet_torch [(Array [blank_image], [a])] (PyNum (Fin 0)) ?s0
             = (Inr (PyNum (Fin (ln 10))), ?s0\<lparr>rng := rng ?s0 + 3\<rparr>)"
    using train_one_sample[of ?s0 a] z m a by simp
  have v: "validation quiet_torch (one_sample b) (?s0\<lparr>rng := rng ?s0 + 3\<rparr>)
             = (Inl IndexError, s\<lparr>model := eval (model s), rng := rng s + 5\<rparr>)"
    using validate_one_sample[of "?s0\<lparr>rng := rng ?s0 + 3\<rparr>" b] z b by simp
  show ?thesis
    using t v by (simp add: run_epoch_def iter_one_sample)
qed

lemma thirty: "[0..<30] = 0 # [1..<30]"
  by (simp add: upt_conv_Cons)

text \<open>
  Claim C1 as stated fails: a validation pass that raises leaves the model in
  evaluation mode. With one training image labelled 3 and one validation image
  labelled 10, the first validation pass raises at the loss and the cell ends with
  the model in evaluation mode.
\<close>

theorem mode_after_validation_counterexample:
  "fst (training_cell quiet_torch (one_sample 3) (one_sample 10) 0 []) = Inl IndexError
   \<and> mode (model (snd (training_cell quiet_torch (one_sample 3) (one_sample 10) 0 []))) \<noteq> TrainMode"
proof -
  have "run_epoch quiet_torch (one_sample 3) (one_sample 10) 30 0 (fresh_session quiet_torch 0 []) =
           (Inl IndexError, (fresh_session quiet_torch 0 [])\<lparr>model := eval (model (fresh_session quiet_torch 0 [])),
               rng := rng (fresh_session quiet_torch 0 []) + 5\<rparr>)"
    by (rule epoch_bad_label) (simp_all add: all_zero_fresh mode_fresh)
  then show ?thesis
    by (simp add: training_cell_def Let_def thirty eval_def)
qed

text \<open>
  Claim C1, as the code has it. An epoch that returns leaves the model in train mode,
  so the training batches of the next epoch run in train mode. A validation pass
  that raises leaves the model in evaluation mode, and so does an epoch that raises
  after its training batches (in the validation pass or in the report): the error
  is the result of the whole loop, and no later epoch runs.
\<close>

theorem mode_after_validation:
  "(run_epoch T trl tel n e s = (Inr u, s') \<longrightarrow> mode (model s') = TrainMode)
 \<and> (validation T tel s1 = (Inl err, s2) \<longrightarrow> mode (model s2) = EvalMode)
 \<and> (train_batches T (fst (iter (randperm T) trl (rng s))) (PyNum (Fin 0)) (s\<lparr>rng := Suc (rng s)\<rparr>)
       = (Inr rl, s3)
     \<and> run_epoch T trl tel n e s = (Inl err, s4)
     \<longrightarrow> mode (model s4) = EvalMode \<and> epoch_loop T trl tel n (e # es) s = (Inl err, s4))"
proof (intro conjI impI)
  assume "run_epoch T trl tel n e s = (Inr u, s')"
  then show "mode (model s') = TrainMode" by (rule run_epoch_returned)
next
  assume "validation T tel s1 = (Inl err, s2)"
  from validation_keeps[OF this] show "mode (model s2) = EvalMode" by (simp add: eval_def)
next
  assume a: "train_batches T (fst (iter (randperm T) trl (rng s))) (PyNum (Fin 0)) (s\<lparr>rng := Suc (rng s)\<rparr>)
       = (Inr rl, s3) \<and> run_epoch T trl tel n e s = (Inl err, s4)"
  then show "mode (model s4) = EvalMode" using run_epoch_raised_late by blast
next
  assume a: "train_batches T (fst (iter (randperm T) trl (rng s))) (PyNum (Fin 0)) (s\<lparr>rng := Suc (rng s)\<rparr>)
       = (Inr rl, s3) \<and> run_epoch T trl tel n e s = (Inl err, s4)"
  then show "epoch_loop T trl tel n (e # es) s = (Inl err, s4)" by simp
qed

theorem mode_after_validation_witness:
  "mode (model (snd (run_epoch quiet_torch (one_sample 3) (one_sample 0) 30 0 (fresh_session quiet_torch 0 [])))) = TrainMode
 \<and> mode (model (snd (validation quiet_torch (one_sample 10) (fresh_session quiet_torch 0 [])))) = EvalMode
 \<and> mode (model (snd (run_epoch quiet_torch (one_sample 3) (one_sample 10) 30 0 (fresh_session quiet_torch 0 [])))) = EvalMode
 \<and> epoch_loop quiet_torch (one_sample 3) (one_sample 10) 30 [0, 1] (fresh_session quiet_torch 0 [])
      = run_epoch quiet_torch (one_sample 3) (one_sample 10) 30 0 (fresh_session quiet_torch 0 [])"
proof -
  let ?s = "fresh_session quiet_torch 0 []"
  have z: "all_zero (model ?s)" and m: "mode (model ?s) = TrainMode"
    by (simp_all add: all_zero_fresh mode_fresh)
  have 1: "run_epoch quiet_torch (one_sample 3) (one_sample 0) 30 0 ?s
         = (Inr (), snd (run_epoch quiet_torch (one_sample 3) (one_sample 0) 30 0 ?s))"
    using epoch_one_sample[OF z m, of 3 0 30 0] by simp
  have 2: "validation quiet_torch (one_sample 10) ?s
         = (Inl IndexError, snd (validation quiet_torch (one_sample 10) ?s))"
    using validate_one_sample[OF z, of 10] by simp
  have 3: "train_batches quiet_torch (fst (iter (randperm quiet_torch) (one_sample 3) (rng ?s)))
             (PyNum (Fin 0)) (?s\<lparr>rng := Suc (rng ?s)\<rparr>)
         = (Inr (PyNum (Fin (ln 10))), ?s\<lparr>rng := Suc (rng ?s)\<rparr>\<lparr>rng := rng (?s\<lparr>rng := Suc (rng ?s)\<rparr>) + 3\<rparr>)"
    using train_one_sample[of "?s\<lparr>rng := Suc (rng ?s)\<rparr>" 3] z m by (simp add: iter_one_sample)
  have 4: "run_epoch quiet_torch (one_sample 3) (one_sample 10) 30 0 ?s
         = (Inl IndexError, snd (run_epoch quiet_torch (one_sample 3) (one_sample 10) 30 0 ?s))"
    using epoch_bad_label[OF z m, of 3 10 30 0] by simp
  from mode_after_validation[of quiet_torch "one_sample 3" "one_sample 0" 30 0 ?s "()"
         "snd (run_epoch quiet_torch (one_sample 3) (one_sample 0) 30 0 ?s)"] 1
  have A: "mode (model (snd (run_epoch quiet_torch (one_sample 3) (one_sample 0) 30 0 ?s))) = TrainMode"
    by blast
  from mode_after_validation[of quiet_torch "one_sample 3" "one_sample 10" 30 0 ?s _ _ ?s IndexError
         "snd (validation quiet_torch (one_sample 10) ?s)" "PyNum (Fin (ln 10))"
         "?s\<lparr>rng := Suc (rng ?s)\<rparr>\<lparr>rng := rng (?s\<lparr>rng := Suc (rng ?s)\<rparr>) + 3\<rparr>"
         "snd (run_epoch quiet_torch (one_sample 3) (one_sample 10) 30 0 ?s)" "[1]"] 2 3 4
  have B: "mode (model (snd (validation quiet_torch (one_sample 10) ?s))) = EvalMode
     \<and> mode (model (snd (run_epoch quiet_torch (one_sample 3) (one_sample 10) 30 0 ?s))) = EvalMode
     \<and> epoch_loop quiet_torch (one_sample 3) (one_sample 10) 30 [0, 1] ?s
         = (Inl IndexError, snd (run_epoch quiet_torch (one_sample 3) (one_sample 10) 30 0 ?s))"
    by blast
  from A B 4 show ?thesis by simp
qed

section \<open>Batches and their losses\<close>

lemma Linear_forward_length: "Linear_forward l xs = Inr ys \<Longrightarrow> length ys = length xs"
  by (auto simp: Linear_forward_def split: if_splits)

lemma view_rows_length: "view_rows x = Inr x0 \<Longrightarrow> x0 \<noteq> []"
  by (cases x rule: view_rows.cases) auto

lemma length_log_softmax: "length (log_softmax xs) = length xs"
  by (simp add: log_softmax_def)

lemma length_relu: "length (relu xs) = length xs"
  by (simp add: relu_def)

lemma Dropout_forward_length: "Dropout_forward p m bern g xs = (ys, g') \<Longrightarrow> length ys = length xs"
  using length_dropout[of p m bern g xs] by simp

lemma forward_nonempty:
  assumes "DropoutClassifier_forward bern m g x = (Inr log_ps, g')"
  shows "log_ps \<noteq> []"
proof -
  from assms obtain x0 a1 x1 g1 a2 x2 g2 a3 x3 g3 a4 where
    v: "view_rows x = Inr x0" and l1: "Linear_forward (fc1 m) x0 = Inr a1"
    and d1: "Dropout_forward (dropout m) (mode m) bern g (relu a1) = (x1, g1)"
    and l2: "Linear_forward (fc2 m) x1 = Inr a2"
    and d2: "Dropout_forward (dropout m) (mode m) bern g1 (relu a2) = (x2, g2)"
    and l3: "Linear_forward (fc3 m) x2 = Inr a3"
    and d3: "Dropout_forward (dropout m) (mode m) bern g2 (relu a3) = (x3, g3)"
    and l4: "Linear_forward (fc4 m) x3 = Inr a4" and r: "log_ps = log_softmax a4"
    by (auto simp: DropoutClassifier_forward_def split: sum.splits prod.splits)
  have "length log_ps = length x0"
    using Linear_forward_length[OF l1] Linear_forward_length[OF l2] Linear_forward_length[OF l3]
      Linear_forward_length[OF l4] Dropout_forward_length[OF d1] Dropout_forward_length[OF d2]
      Dropout_forward_length[OF d3] r
    by (simp add: length_log_softmax length_relu)
  with view_rows_length[OF v] show ?thesis by auto
qed

lemma NLLLoss_finite: "NLLLoss log_ps labels = Inr v \<Longrightarrow> log_ps \<noteq> [] \<Longrightarrow> \<exists>x. v = Tensor (Fin x)"
  by (auto simp: NLLLoss_def split: if_splits sum.splits)

lemma train_batches_finite:
  "train_batches T bs (PyNum (Fin a)) s = (Inr rl, s') \<Longrightarrow> \<exists>y. rl = PyNum (Fin y)"
proof (induction T bs "PyNum (Fin a)" s arbitrary: a rule: train_batches.induct)
  case (1 T s)
  then show ?case by auto
next
  case (2 T images labels rest s)
  from "2.prems" obtain log_ps g loss where
    f: "DropoutClassifier_forward (bernoulli T) (model s) (rng s) images = (Inr log_ps, g)"
    and n: "NLLLoss log_ps labels = Inr loss"
    by (auto split: prod.splits sum.splits)
  from NLLLoss_finite[OF n forward_nonempty[OF f]] obtain x where x: "loss = Tensor (Fin x)" by blast
  obtain opt new where b: "backward_step T (optimizer s) (model s) (rng s) images labels = (opt, new)"
    by (cases "backward_step T (optimizer s) (model s) (rng s) images labels")
  have ad: "add (PyNum (Fin a)) (item loss) = PyNum (Fin (a + x))" using x by simp
  with "2.prems" f n b have
    "train_batches T rest (PyNum (Fin (a + x))) (s\<lparr>rng := g, optimizer := opt, model := load_all new (model s)\<rparr>) = (Inr rl, s')"
    by simp
  from "2.hyps"[OF f[symmetric] refl n b[symmetric] ad this] show ?case .
qed

section \<open>An empty split\<close>




















section \<open>The mean training loss\<close>

lemma train_batches_sum:
  "train_batches T bs (PyNum (Fin a)) s = (Inr rl, s') \<Longrightarrow>
     \<exists>ls. batch_losses T bs s = map (\<lambda>x. Tensor (Fin x)) ls \<and> length ls = length bs
        \<and> rl = PyNum (Fin (a + sum_list ls))"
proof (induction T bs "PyNum (Fin a)" s arbitrary: a rule: train_batches.induct)
  case (1 T s)
  then show ?case by auto
next
  case (2 T images labels rest s)
  from "2.prems" obtain log_ps g loss where
    f: "DropoutClassifier_forward (bernoulli T) (model s) (rng s) images = (Inr log_ps, g)"
    and n: "NLLLoss log_ps labels = Inr loss"
    by (auto split: prod.splits sum.splits)
  from NLLLoss_finite[OF n forward_nonempty[OF f]] obtain x where x: "loss = Tensor (Fin x)" by blast
  obtain opt new where b: "backward_step T (optimizer s) (model s) (rng s) images labels = (opt, new)"
    by (cases "backward_step T (optimizer s) (model s) (rng s) images labels")
  have ad: "add (PyNum (Fin a)) (item loss) = PyNum (Fin (a + x))" using x by simp
  with "2.prems" f n b have
    "train_batches T rest (PyNum (Fin (a + x))) (s\<lparr>rng := g, optimizer := opt, model := load_all new (model s)\<rparr>) = (Inr rl, s')"
    by simp
  from "2.hyps"[OF f[symmetric] refl n b[symmetric] ad this] obtain ls where
    ls: "batch_losses T rest (s\<lparr>rng := g, optimizer := opt, model := load_all new (model s)\<rparr>)
           = map (\<lambda>x. Tensor (Fin x)) ls" "length ls = length rest" "rl = PyNum (Fin (a + x + sum_list ls))"
    by blast
  have "batch_losses T ((images, labels) # rest) s = map (\<lambda>x. Tensor (Fin x)) (x # ls)"
    using f n b x ls(1) by simp
  moreover have "length (x # ls) = length ((images, labels) # rest)" using ls(2) by simp
  moreover have "rl = PyNum (Fin (a + sum_list (x # ls)))" using ls(3) by (simp add: add.assoc)
  ultimately show ?case by blast
qed

lemma epoch_train_loss:
  assumes r: "run_epoch T trl tel n e s = (Inr u, s')" and b: "0 < batch_size trl"
  shows "\<exists>ls. batch_losses T (fst (iter (randperm T) trl (rng s))) (s\<lparr>rng := Suc (rng s)\<rparr>)
                = map (\<lambda>x. Tensor (Fin x)) ls
            \<and> length ls = len trl
            \<and> train_losses s' = train_losses s @ [PyNum (Fin (sum_list ls / real (length ls)))]
            \<and> Train_Loss (last (printed s')) = PyNum (Fin (sum_list ls / real (length ls)))"
proof -
  let ?bs = "fst (iter (randperm T) trl (rng s))"
  from r obtain rl s1 l a s2 where
    t: "train_batches T ?bs (PyNum (Fin 0)) (s\<lparr>rng := Suc (rng s)\<rparr>) = (Inr rl, s1)"
    and v: "validation T tel s1 = (Inr (l, a), s2)"
    and p: "epoch_report e n (len trl) (len tel) rl l a s2 = (Inr u, s')"
    by (auto simp: run_epoch_phases split: prod.splits sum.splits)
  from train_batches_sum[OF t] obtain ls where
    ls: "batch_losses T ?bs (s\<lparr>rng := Suc (rng s)\<rparr>) = map (\<lambda>x. Tensor (Fin x)) ls"
        "length ls = length ?bs" "rl = PyNum (Fin (sum_list ls))"
    by auto
  have len: "length ls = len trl" using ls(2) length_iter[OF b] by simp
  from epoch_report_returned[OF p] obtain x y z where
    x: "truediv rl (len trl) = Inr x"
    and s': "s' = s2\<lparr>train_losses := train_losses s2 @ [x], test_losses := test_losses s2 @ [y],
                 printed := printed s2 @ [\<lparr>Epoch = e + 1, Of = n, Train_Loss = x,
                    Test_Loss = y, Accuracy = mul z 100\<rparr>],
                 model := train (model s2)\<rparr>"
    by blast
  from x ls(3) len have xv: "x = PyNum (Fin (sum_list ls / real (length ls)))"
    by (auto split: if_splits)
  have k: "train_losses s2 = train_losses s"
    using validation_keeps[OF v] train_batches_keeps[OF t] by simp
  from s' xv k ls(1) len show ?thesis by auto
qed

text \<open>
  Claim C5. After an epoch that returns, the entry appended to \<^verbatim>\<open>train_losses\<close>, which
  is also the training loss of the printed report, is the sum of the losses of the
  epoch's training batches divided by their number, \<^verbatim>\<open>len(trainloader)\<close>; when the
  batch losses are \<open>[0.4, 0.6]\<close> it is \<open>0.5\<close>.
\<close>

theorem mean_training_loss:
  assumes "run_epoch T trl tel n e s = (Inr u, s')" and "0 < batch_size trl"
  shows "\<exists>ls. batch_losses T (fst (iter (randperm T) trl (rng s))) (s\<lparr>rng := Suc (rng s)\<rparr>)
                = map (\<lambda>x. Tensor (Fin x)) ls
            \<and> length ls = len trl
            \<and> train_losses s' = train_losses s @ [PyNum (Fin (sum_list ls / real (length ls)))]
            \<and> Train_Loss (last (printed s')) = PyNum (Fin (sum_list ls / real (length ls)))
            \<and> (ls = [0.4, 0.6] \<longrightarrow> Train_Loss (last (printed s')) = PyNum (Fin 0.5))"
proof -
  from epoch_train_loss[OF assms] obtain ls where
    ls: "batch_losses T (fst (iter (randperm T) trl (rng s))) (s\<lparr>rng := Suc (rng s)\<rparr>)
                = map (\<lambda>x. Tensor (Fin x)) ls"
        "length ls = len trl"
        "train_losses s' = train_losses s @ [PyNum (Fin (sum_list ls / real (length ls)))]"
        "Train_Loss (last (printed s')) = PyNum (Fin (sum_list ls / real (length ls)))"
    by blast
  have "ls = [0.4, 0.6] \<longrightarrow> Train_Loss (last (printed s')) = PyNum (Fin 0.5)"
    using ls(4) by simp
  with ls show ?thesis by blast
qed

lemma upt_ten: "[0..<10] = [0, 1, 2, 3, 4, 5, 6, 7, 8, 9]"
  by (simp add: upt_rec)

lemma head_bias_sum:
  "0 < k \<Longrightarrow> sum_list (map (\<lambda>i. exp (head_bias k i)) [0..<10]) = exp k"
  by (simp add: head_bias_def upt_ten field_simps)

lemma head_forward:
  assumes h: "holds (\<lambda>i j. 0, head_bias k) m" and k: "0 < k"
  shows "DropoutClassifier_forward bern m g (Array [blank_image]) =
           (Inr [map (\<lambda>i. head_bias k i - k) [0..<10]], if mode m = TrainMode then g + 3 else g)"
proof -
  have fl: "list_all (\<lambda>x. length x = in_features (fc1 m)) (map flat [blank_image])"
    using h by (simp add: flat_blank_image holds_def Linear_init_def)
  have "DropoutClassifier_forward bern m g (Array [blank_image]) =
           (Inr (log_softmax (map (\<lambda>x. map (bias (fc4 m)) [0..<out_features (fc4 m)]) [blank_image])),
            if mode m = TrainMode then g + 3 else g)"
    using h by (intro forward_weightless fl) (simp_all add: holds_def Linear_init_def)
  moreover have "bias (fc4 m) = head_bias k" "out_features (fc4 m) = 10"
    using h by (simp_all add: holds_def Linear_init_def)
  moreover have "log_softmax [map (head_bias k) [0..<10]] = [map (\<lambda>i. head_bias k i - k) [0..<10]]"
    unfolding log_softmax_def by (simp only: head_bias_sum[OF k] ln_exp list.map map_map comp_def)
  ultimately show ?thesis by simp
qed

lemma head_loss: "NLLLoss [map (\<lambda>i. head_bias k i - k) [0..<10]] [0] = Inr (Tensor (Fin k))"
  by (simp add: NLLLoss_def head_bias_def upt_ten)

lemma holds_load: "holds a m \<Longrightarrow> holds b (load_all (\<lambda>k. b) m)"
  by (simp add: holds_def load_all_def load_def Linear_init_def)

lemma holds_mode: "holds wb (m\<lparr>mode := x\<rparr>) = holds wb m"
  by (simp add: holds_def)

lemma holds_fresh: "holds (\<lambda>i j. 0, head_bias (2 / 5)) (model (fresh_session tuned_torch g out))"
  by (simp add: holds_def fresh_session_def DropoutClassifier_init_def tuned_torch_def)

lemma iter_two_batches:
  "iter (randperm tuned_torch) two_batches g
     = ([(Array [blank_image], [0]), (Array [blank_image], [0])], Suc g)"
  by (simp add: iter_def two_batches_def tuned_torch_def shuffle_def chunks_step chunks_Nil collate_def)

lemma iter_one_sample_tuned:
  "iter (randperm tuned_torch) (one_sample l) g = ([(Array [blank_image], [l])], Suc g)"
  by (simp add: iter_def one_sample_def tuned_torch_def shuffle_def chunks_step chunks_Nil collate_def)

lemma len_two_batches: "len two_batches = 2"
  by (simp add: len_def two_batches_def)

lemma tuned_step:
  "backward_step tuned_torch opt mo g x y = ((), \<lambda>k. (\<lambda>i j. 0, head_bias (3 / 5)))"
  by (simp add: tuned_torch_def)

lemma tuned_training:
  assumes h: "holds (\<lambda>i j. 0, head_bias (2 / 5)) (model s)" and m: "mode (model s) = TrainMode"
  shows "train_batches tuned_torch [(Array [blank_image], [0]), (Array [blank_image], [0])] (PyNum (Fin 0)) s
           = (Inr (PyNum (Fin 1)),
              s\<lparr>rng := rng s + 6, model := load_all (\<lambda>k. (\<lambda>i j. 0, head_bias (3 / 5))) (model s)\<rparr>)"
    and "batch_losses tuned_torch [(Array [blank_image], [0]), (Array [blank_image], [0])] s
           = [Tensor (Fin (2 / 5)), Tensor (Fin (3 / 5))]"
proof -
  let ?ma = "load_all (\<lambda>k. (\<lambda>i j. 0, head_bias (3 / 5))) (model s)"
  have f0: "DropoutClassifier_forward (bernoulli tuned_torch) (model s) g (Array [blank_image])
             = (Inr [map (\<lambda>i. head_bias (2 / 5) i - 2 / 5) [0..<10]], g + 3)" for g
    using head_forward[OF h, of _ g] m by simp
  have h1: "holds (\<lambda>i j. 0, head_bias (3 / 5)) ?ma" using h by (rule holds_load)
  have m1: "mode ?ma = TrainMode" using m by (simp add: load_all_keeps)
  have f1: "DropoutClassifier_forward (bernoulli tuned_torch) ?ma g (Array [blank_image])
             = (Inr [map (\<lambda>i. head_bias (3 / 5) i - 3 / 5) [0..<10]], g + 3)" for g
    using head_forward[OF h1, of _ g] m1 by simp
  have ll: "load_all (\<lambda>k. (\<lambda>i j. 0, head_bias (3 / 5))) ?ma = ?ma"
    by (simp add: load_all_def load_def)
  show "train_batches tuned_torch [(Array [blank_image], [0]), (Array [blank_image], [0])] (PyNum (Fin 0)) s
           = (Inr (PyNum (Fin 1)), s\<lparr>rng := rng s + 6, model := ?ma\<rparr>)"
    by (simp add: f0 f1 head_loss tuned_step ll)
  show "batch_losses tuned_torch [(Array [blank_image], [0]), (Array [blank_image], [0])] s
           = [Tensor (Fin (2 / 5)), Tensor (Fin (3 / 5))]"
    by (simp add: f0 f1 head_loss tuned_step ll)
qed

lemma validation_one_batch_returns:
  assumes i: "iter (randperm T) tel (rng s) = ([(x, [l])], g0)"
      and f: "DropoutClassifier_forward (bernoulli T) (eval (model s)) g0 x = (Inr [row], g)"
      and r: "row \<noteq> []" and n: "NLLLoss [row] [l] = Inr v"
  shows "\<exists>a. validation T tel s
               = (Inr (add (PyNum (Fin 0)) v, Tensor a), s\<lparr>model := eval (model s), rng := g\<rparr>)"
  using r by (simp add: validation_def Let_def i f n topk1_def equals_def mean_def as_float_def)

lemma tuned_epoch:
  "fst (run_epoch tuned_torch two_batches (one_sample 0) 30 0 (fresh_session tuned_torch 0 [])) = Inr ()"
proof -
  let ?s = "fresh_session tuned_torch 0 []"
  let ?sa = "?s\<lparr>rng := Suc (rng ?s)\<rparr>"
  let ?ma = "load_all (\<lambda>k. (\<lambda>i j. 0, head_bias (3 / 5))) (model ?sa)"
  let ?sb = "?sa\<lparr>rng := rng ?sa + 6, model := ?ma\<rparr>"
  have h: "holds (\<lambda>i j. 0, head_bias (2 / 5)) (model ?sa)" using holds_fresh[of 0 "[]"] by simp
  have m: "mode (model ?sa) = TrainMode" by (simp add: mode_fresh)
  have t: "train_batches tuned_torch (fst (iter (randperm tuned_torch) two_batches (rng ?s)))
             (PyNum (Fin 0)) ?sa = (Inr (PyNum (Fin 1)), ?sb)"
    using tuned_training(1)[OF h m] by (simp add: iter_two_batches)
  have h1: "holds (\<lambda>i j. 0, head_bias (3 / 5)) (eval (model ?sb))"
    using holds_load[OF h] by (simp add: eval_def holds_mode)
  have f: "DropoutClassifier_forward (bernoulli tuned_torch) (eval (model ?sb)) (Suc (rng ?sb)) (Array [blank_image])
          = (Inr [map (\<lambda>i. head_bias (3 / 5) i - 3 / 5) [0..<10]], Suc (rng ?sb))"
    using head_forward[OF h1, of _ "Suc (rng ?sb)"] by (simp add: eval_def)
  from validation_one_batch_returns[OF iter_one_sample_tuned f _ head_loss] obtain a where
    v: "validation tuned_torch (one_sample 0) ?sb
       = (Inr (add (PyNum (Fin 0)) (Tensor (Fin (3 / 5))), Tensor a),
          ?sb\<lparr>model := eval (model ?sb), rng := Suc (rng ?sb)\<rparr>)"
    by auto
  have "run_epoch tuned_torch two_batches (one_sample 0) 30 0 ?s
      = epoch_report 0 30 (len two_batches) (len (one_sample 0)) (PyNum (Fin 1))
          (add (PyNum (Fin 0)) (Tensor (Fin (3 / 5)))) (Tensor a)
          (?sb\<lparr>model := eval (model ?sb), rng := Suc (rng ?sb)\<rparr>)"
    by (simp only: run_epoch_phases t v prod.case sum.case)
  then show ?thesis
    by (cases a) (simp_all add: len_two_batches len_one_sample epoch_report_def Let_def last_item_snoc)
qed

theorem mean_training_loss_witness:
  "Train_Loss (last (printed (snd (run_epoch tuned_torch two_batches (one_sample 0) 30 0
      (fresh_session tuned_torch 0 []))))) = PyNum (Fin 0.5)"
proof -
  let ?s = "fresh_session tuned_torch 0 []"
  let ?sa = "?s\<lparr>rng := Suc (rng ?s)\<rparr>"
  have r: "run_epoch tuned_torch two_batches (one_sample 0) 30 0 ?s
          = (Inr (), snd (run_epoch tuned_torch two_batches (one_sample 0) 30 0 ?s))"
    using tuned_epoch by (cases "run_epoch tuned_torch two_batches (one_sample 0) 30 0 ?s") simp
  have b: "0 < batch_size two_batches" by (simp add: two_batches_def)
  have h: "holds (\<lambda>i j. 0, head_bias (2 / 5)) (model ?sa)" using holds_fresh[of 0 "[]"] by simp
  have m: "mode (model ?sa) = TrainMode" by (simp add: mode_fresh)
  have bl: "batch_losses tuned_torch (fst (iter (randperm tuned_torch) two_batches (rng ?s))) ?sa
          = [Tensor (Fin (2 / 5)), Tensor (Fin (3 / 5))]"
    using tuned_training(2)[OF h m] by (simp add: iter_two_batches)
  from mean_training_loss[OF r b] obtain ls where
    ls: "batch_losses tuned_torch (fst (iter (randperm tuned_torch) two_batches (rng ?s))) ?sa
           = map (\<lambda>x. Tensor (Fin x)) ls"
    and c: "ls = [0.4, 0.6] \<longrightarrow> Train_Loss (last (printed (snd (run_epoch tuned_torch two_batches
              (one_sample 0) 30 0 ?s)))) = PyNum (Fin 0.5)"
    by blast
  from ls bl have "ls = [0.4, 0.6]" by (auto simp: map_eq_Cons_conv)
  with c show ?thesis by blast
qed

section \<open>Thirty epochs and the history\<close>

lemma run_epoch_history:
  assumes "run_epoch T trl tel n e s = (Inr u, s')"
  shows "\<exists>x y r. train_losses s' = train_losses s @ [x] \<and> test_losses s' = test_losses s @ [y]
           \<and> printed s' = printed s @ [r] \<and> Epoch r = e + 1"
proof -
  from assms obtain rl s1 l a s2 where
    t: "train_batches T (fst (iter (randperm T) trl (rng s))) (PyNum (Fin 0)) (s\<lparr>rng := Suc (rng s)\<rparr>) = (Inr rl, s1)"
    and v: "validation T tel s1 = (Inr (l, a), s2)"
    and p: "epoch_report e n (len trl) (len tel) rl l a s2 = (Inr u, s')"
    by (auto simp: run_epoch_phases split: prod.splits sum.splits)
  from train_batches_keeps[OF t] validation_keeps[OF v]
  have k: "train_losses s2 = train_losses s" "test_losses s2 = test_losses s" "printed s2 = printed s"
    by simp_all
  from epoch_report_returned[OF p] k show ?thesis by auto
qed

lemma epoch_loop_history:
  "epoch_loop T trl tel n es s = (Inr u, s') \<Longrightarrow>
     \<exists>xs ys rs. length xs = length es \<and> length ys = length es
        \<and> train_losses s' = train_losses s @ xs \<and> test_losses s' = test_losses s @ ys
        \<and> printed s' = printed s @ rs \<and> map Epoch rs = map Suc es"
proof (induction es arbitrary: s)
  case Nil
  then show ?case by simp
next
  case (Cons e es)
  from Cons.prems obtain s1 where
    r: "run_epoch T trl tel n e s = (Inr (), s1)" and l: "epoch_loop T trl tel n es s1 = (Inr u, s')"
    by (auto split: prod.splits sum.splits)
  from run_epoch_history[OF r] obtain x y r where
    1: "train_losses s1 = train_losses s @ [x]" "test_losses s1 = test_losses s @ [y]"
       "printed s1 = printed s @ [r]" "Epoch r = e + 1"
    by blast
  from Cons.IH[OF l] obtain xs ys rs where
    2: "length xs = length es" "length ys = length es"
       "train_losses s' = train_losses s1 @ xs" "test_losses s' = test_losses s1 @ ys"
       "printed s' = printed s1 @ rs" "map Epoch rs = map Suc es"
    by blast
  have "length (x # xs) = length (e # es)" "length (y # ys) = length (e # es)"
       "train_losses s' = train_losses s @ (x # xs)" "test_losses s' = test_losses s @ (y # ys)"
       "printed s' = printed s @ (r # rs)" "map Epoch (r # rs) = map Suc (e # es)"
    using 1 2 by simp_all
  then show ?case by blast
qed

lemma epoch_loop_append:
  "epoch_loop T trl tel n (es @ fs) s =
     (case epoch_loop T trl tel n es s of
        (Inl err, s1) \<Rightarrow> (Inl err, s1)
      | (Inr u, s1) \<Rightarrow> epoch_loop T trl tel n fs s1)"
  by (induction es arbitrary: s) (auto split: prod.splits sum.splits)

lemma epoch_loop_prefix:
  assumes l: "epoch_loop T trl tel n [0..<m] s = (Inr u, s')" and k: "k \<le> m"
      and e: "train_losses s = []" "test_losses s = []"
  shows "\<exists>sk. epoch_loop T trl tel n [0..<k] s = (Inr (), sk)
            \<and> train_losses sk = take k (train_losses s')
            \<and> test_losses sk = take k (test_losses s')"
proof -
  from k have "[0..<m] = [0..<k] @ [k..<m]"
    by (metis le_add_diff_inverse upt_add_eq_append zero_le)
  with l have "(case epoch_loop T trl tel n [0..<k] s of
        (Inl err, s1) \<Rightarrow> (Inl err, s1)
      | (Inr u, s1) \<Rightarrow> epoch_loop T trl tel n [k..<m] s1) = (Inr u, s')"
    by (simp add: epoch_loop_append)
  then obtain sk where
    a: "epoch_loop T trl tel n [0..<k] s = (Inr (), sk)" and b: "epoch_loop T trl tel n [k..<m] sk = (Inr u, s')"
    by (auto split: prod.splits sum.splits)
  from epoch_loop_history[OF a] e obtain xs ys where
    1: "length xs = k" "length ys = k" "train_losses sk = xs" "test_losses sk = ys"
    by auto
  from epoch_loop_history[OF b] obtain xs' ys' where
    2: "train_losses s' = train_losses sk @ xs'" "test_losses s' = test_losses sk @ ys'"
    by blast
  from a 1 2 show ?thesis by auto
qed

lemma fresh_histories:
  "train_losses (fresh_session T g out) = []" "test_losses (fresh_session T g out) = []"
  "printed (fresh_session T g out) = out"
  by (simp_all add: fresh_session_def split: prod.splits)

lemma epoch_report_appends:
  assumes "epoch_report e n ntr nte rl l a s = (r, s')"
  shows "\<exists>xs ys rs. train_losses s' = train_losses s @ xs \<and> test_losses s' = test_losses s @ ys
           \<and> printed s' = printed s @ rs \<and> length xs \<le> 1 \<and> length ys \<le> 1 \<and> length rs \<le> 1"
proof (cases "truediv rl ntr")
  case (Inl err)
  with assms have "s' = s" by (simp add: epoch_report_def)
  then show ?thesis by simp
next
  case x: (Inr x)
  show ?thesis
  proof (cases "truediv l nte")
    case (Inl err)
    with assms x have "s' = s\<lparr>train_losses := train_losses s @ [x]\<rparr>"
      by (simp add: epoch_report_def Let_def)
    then have "train_losses s' = train_losses s @ [x] \<and> test_losses s' = test_losses s @ []
      \<and> printed s' = printed s @ [] \<and> length [x] \<le> 1 \<and> length ([] :: number list) \<le> 1
      \<and> length ([] :: report list) \<le> 1" by simp
    then show ?thesis by blast
  next
    case y: (Inr y)
    show ?thesis
    proof (cases "truediv a nte")
      case (Inl err)
      with assms x y have "s' = s\<lparr>train_losses := train_losses s @ [x], test_losses := test_losses s @ [y]\<rparr>"
        by (simp add: epoch_report_def Let_def last_item_snoc)
      then have "train_losses s' = train_losses s @ [x] \<and> test_losses s' = test_losses s @ [y]
        \<and> printed s' = printed s @ [] \<and> length [x] \<le> 1 \<and> length [y] \<le> 1
        \<and> length ([] :: report list) \<le> 1" by simp
      then show ?thesis by blast
    next
      case (Inr z)
      with assms x y obtain rep where "train_losses s' = train_losses s @ [x]"
        "test_losses s' = test_losses s @ [y]" "printed s' = printed s @ [rep]"
        by (auto simp: epoch_report_def Let_def last_item_snoc)
      then have "train_losses s' = train_losses s @ [x] \<and> test_losses s' = test_losses s @ [y]
        \<and> printed s' = printed s @ [rep] \<and> length [x] \<le> 1 \<and> length [y] \<le> 1
        \<and> length [rep] \<le> 1" by simp
      then show ?thesis by blast
    qed
  qed
qed

lemma run_epoch_appends:
  assumes "run_epoch T trl tel n e s = (r, s')"
  shows "\<exists>xs ys rs. train_losses s' = train_losses s @ xs \<and> test_losses s' = test_losses s @ ys
           \<and> printed s' = printed s @ rs \<and> length xs \<le> 1 \<and> length ys \<le> 1 \<and> length rs \<le> 1"
proof -
  let ?t = "train_batches T (fst (iter (randperm T) trl (rng s))) (PyNum (Fin 0)) (s\<lparr>rng := Suc (rng s)\<rparr>)"
  obtain tr s1 where t: "?t = (tr, s1)" by (cases ?t)
  from train_batches_keeps[OF t]
  have k1: "train_losses s1 = train_losses s" "test_losses s1 = test_losses s" "printed s1 = printed s"
    by simp_all
  show ?thesis
  proof (cases tr)
    case (Inl err)
    with assms t have "s' = s1" by (simp add: run_epoch_phases)
    with k1 show ?thesis by simp
  next
    case rl: (Inr rl)
    obtain vr s2 where v: "validation T tel s1 = (vr, s2)" by (cases "validation T tel s1")
    from validation_keeps[OF v] k1
    have k2: "train_losses s2 = train_losses s" "test_losses s2 = test_losses s" "printed s2 = printed s"
      by simp_all
    show ?thesis
    proof (cases vr)
      case (Inl err)
      with assms t rl v have "s' = s2" by (simp add: run_epoch_phases)
      with k2 show ?thesis by simp
    next
      case (Inr la)
      obtain l a where "la = (l, a)" by (cases la)
      with Inr assms t rl v have "epoch_report e n (len trl) (len tel) rl l a s2 = (r, s')"
        by (simp add: run_epoch_phases)
      from epoch_report_appends[OF this] k2 show ?thesis by simp
    qed
  qed
qed

lemma epoch_loop_appends:
  "epoch_loop T trl tel n es s = (r, s') \<Longrightarrow>
     \<exists>xs ys rs. train_losses s' = train_losses s @ xs \<and> test_losses s' = test_losses s @ ys
        \<and> printed s' = printed s @ rs
        \<and> length xs \<le> length es \<and> length ys \<le> length es \<and> length rs \<le> length es"
proof (induction es arbitrary: s)
  case Nil
  then show ?case by simp
next
  case (Cons e es)
  obtain r1 s1 where r: "run_epoch T trl tel n e s = (r1, s1)" by (cases "run_epoch T trl tel n e s")
  from run_epoch_appends[OF r] obtain xs ys rs where
    1: "train_losses s1 = train_losses s @ xs" "test_losses s1 = test_losses s @ ys"
       "printed s1 = printed s @ rs" "length xs \<le> 1" "length ys \<le> 1" "length rs \<le> 1"
    by blast
  show ?case
  proof (cases r1)
    case (Inl err)
    with Cons.prems r have "s' = s1" by simp
    with 1 have "train_losses s' = train_losses s @ xs \<and> test_losses s' = test_losses s @ ys
        \<and> printed s' = printed s @ rs
        \<and> length xs \<le> length (e # es) \<and> length ys \<le> length (e # es)
        \<and> length rs \<le> length (e # es)" by simp
    then show ?thesis by blast
  next
    case (Inr u)
    with Cons.prems r have "epoch_loop T trl tel n es s1 = (r, s')" by simp
    from Cons.IH[OF this] obtain xs' ys' rs' where
      2: "train_losses s' = train_losses s1 @ xs'" "test_losses s' = test_losses s1 @ ys'"
         "printed s' = printed s1 @ rs'"
         "length xs' \<le> length es" "length ys' \<le> length es" "length rs' \<le> length es"
      by blast
    have "train_losses s' = train_losses s @ (xs @ xs')" "test_losses s' = test_losses s @ (ys @ ys')"
         "printed s' = printed s @ (rs @ rs')"
         "length (xs @ xs') \<le> length (e # es)" "length (ys @ ys') \<le> length (e # es)"
         "length (rs @ rs') \<le> length (e # es)"
      using 1 2 by simp_all
    then show ?thesis by blast
  qed
qed

text \<open>
  Claim C9. The cell is a total function, so it always returns, and whatever the
  outcome it has appended at most thirty entries to each history and printed at most
  thirty lines after the earlier output. When it returns without an error it has
  run exactly thirty epochs: \<^verbatim>\<open>train_losses\<close> and \<^verbatim>\<open>test_losses\<close> hold thirty entries
  each, and thirty report lines, numbered 1 to 30 in this order, have been printed.
  The histories are in epoch order and no recorded entry is changed later: for every
  \<open>k \<le> 30\<close>, the histories after the first \<open>k\<close> epochs are the first \<open>k\<close> entries
  of the final histories.
\<close>

theorem thirty_epochs:
  "(training_cell T trl tel g out = (Inr u, s') \<longrightarrow>
       length (train_losses s') = 30 \<and> length (test_losses s') = 30
     \<and> (\<exists>rs. printed s' = out @ rs \<and> map Epoch rs = [1..<31])
     \<and> (\<forall>k\<le>30. \<exists>sk. epoch_loop T trl tel 30 [0..<k] (fresh_session T g out) = (Inr (), sk)
            \<and> train_losses sk = take k (train_losses s')
            \<and> test_losses sk = take k (test_losses s')))
 \<and> (training_cell T trl tel g out = (r, s'') \<longrightarrow>
       length (train_losses s'') \<le> 30 \<and> length (test_losses s'') \<le> 30
     \<and> (\<exists>rs. printed s'' = out @ rs \<and> length rs \<le> 30))"
proof (intro conjI impI)
  let ?s = "fresh_session T g out"
  assume "training_cell T trl tel g out = (Inr u, s')"
  then have l: "epoch_loop T trl tel 30 [0..<30] ?s = (Inr u, s')"
    by (simp add: training_cell_def Let_def)
  from epoch_loop_history[OF l] obtain xs ys rs where
    h: "length xs = 30" "length ys = 30" "train_losses s' = xs" "test_losses s' = ys"
       "printed s' = out @ rs" "map Epoch rs = map Suc [0..<30]"
    by (auto simp: fresh_histories)
  from h show "length (train_losses s') = 30" by simp
  from h show "length (test_losses s') = 30" by simp
  have "map Suc [0..<30] = [1..<31]"
    using map_Suc_upt[of 0 30] by simp
  with h show "\<exists>rs. printed s' = out @ rs \<and> map Epoch rs = [1..<31]" by auto
  show "\<forall>k\<le>30. \<exists>sk. epoch_loop T trl tel 30 [0..<k] ?s = (Inr (), sk)
              \<and> train_losses sk = take k (train_losses s')
              \<and> test_losses sk = take k (test_losses s')"
    using epoch_loop_prefix[OF l _ fresh_histories(1,2)] by blast
next
  let ?s = "fresh_session T g out"
  assume "training_cell T trl tel g out = (r, s'')"
  then have "epoch_loop T trl tel 30 [0..<30] ?s = (r, s'')"
    by (simp add: training_cell_def Let_def)
  from epoch_loop_appends[OF this] obtain xs ys rs where
    a: "train_losses s'' = xs" "test_losses s'' = ys" "printed s'' = out @ rs"
       "length xs \<le> 30" "length ys \<le> 30" "length rs \<le> 30"
    by (auto simp: fresh_histories)
  from a show "length (train_losses s'') \<le> 30" by simp
  from a show "length (test_losses s'') \<le> 30" by simp
  from a show "\<exists>rs. printed s'' = out @ rs \<and> length rs \<le> 30" by blast
qed

lemma quiet_loop_returns:
  assumes a: "0 \<le> a \<and> a < 10" and b: "0 \<le> b \<and> b < 10"
  shows "all_zero (model s) \<Longrightarrow> mode (model s) = TrainMode \<Longrightarrow>
         fst (epoch_loop quiet_torch (one_sample a) (one_sample b) n es s) = Inr ()"
proof (induction es arbitrary: s)
  case Nil
  then show ?case by simp
next
  case (Cons e es)
  note r = epoch_one_sample[OF Cons.prems a b, of n e]
  let ?sa = "snd (run_epoch quiet_torch (one_sample a) (one_sample b) n e s)"
  have "all_zero (model ?sa)" "mode (model ?sa) = TrainMode"
    using r Cons.prems by simp_all
  from Cons.IH[OF this] r show ?case by simp
qed

theorem thirty_epochs_witness:
  "fst (training_cell quiet_torch (one_sample 3) (one_sample 0) 0 []) = Inr ()
   \<and> length (train_losses (snd (training_cell quiet_torch (one_sample 3) (one_sample 0) 0 []))) = 30
   \<and> length (test_losses (snd (training_cell quiet_torch (one_sample 3) (one_sample 0) 0 []))) = 30
   \<and> map Epoch (printed (snd (training_cell quiet_torch (one_sample 3) (one_sample 0) 0 []))) = [1..<31]
   \<and> length (train_losses (snd (training_cell quiet_torch (one_sample 3) (one_sample 10) 0 []))) \<le> 30"
proof -
  let ?r = "training_cell quiet_torch (one_sample 3) (one_sample 0) 0 []"
  let ?q = "training_cell quiet_torch (one_sample 3) (one_sample 10) 0 []"
  have f: "fst ?r = Inr ()"
    unfolding training_cell_def Let_def
    by (rule quiet_loop_returns) (simp_all add: all_zero_fresh mode_fresh)
  then have "?r = (Inr (), snd ?r)" by (cases ?r) simp
  from thirty_epochs[THEN conjunct1, THEN mp, OF this]
  have A: "length (train_losses (snd ?r)) = 30" "length (test_losses (snd ?r)) = 30"
    "map Epoch (printed (snd ?r)) = [1..<31]"
    by auto
  have "?q = (fst ?q, snd ?q)" by simp
  from thirty_epochs[THEN conjunct2, THEN mp, OF this]
  have B: "length (train_losses (snd ?q)) \<le> 30" by simp
  from f A B show ?thesis by simp
qed

section \<open>The reported accuracy\<close>

lemma as_float_Nil_iff: "as_float eq = [] \<longleftrightarrow> eq = []"
  by (simp add: as_float_def)

lemma length_as_float: "length (as_float eq) = length eq"
  by (simp add: as_float_def)

lemma mean_as_float:
  "eq \<noteq> [] \<Longrightarrow> mean (as_float eq) = Tensor (Fin (sum_list (as_float eq) / real (length eq)))"
  by (simp add: mean_def as_float_Nil_iff length_as_float)

lemma add_finite_tensor: "value_of a = Fin v \<Longrightarrow> add a (Tensor (Fin m)) = Tensor (Fin (v + m))"
  by (cases a) simp_all

lemma foldl_add_means:
  "list_all (\<lambda>eq. eq \<noteq> []) eqs \<Longrightarrow> eqs \<noteq> [] \<Longrightarrow> value_of a = Fin v \<Longrightarrow>
   foldl add a (map (\<lambda>eq. mean (as_float eq)) eqs)
     = Tensor (Fin (v + sum_list (map (\<lambda>eq. sum_list (as_float eq) / real (length eq)) eqs)))"
proof (induction eqs arbitrary: a v)
  case Nil
  then show ?case by simp
next
  case (Cons eq eqs)
  let ?m = "sum_list (as_float eq) / real (length eq)"
  from Cons.prems have ne: "eq \<noteq> []" and rest: "list_all (\<lambda>eq. eq \<noteq> []) eqs" by simp_all
  have step: "add a (mean (as_float eq)) = Tensor (Fin (v + ?m))"
    using mean_as_float[OF ne] add_finite_tensor[OF Cons.prems(3)] by simp
  show ?case
  proof (cases "eqs = []")
    case True
    with step show ?thesis by simp
  next
    case False
    have "value_of (Tensor (Fin (v + ?m))) = Fin (v + ?m)" by simp
    from Cons.IH[OF rest False this] step show ?thesis by (simp add: add.assoc)
  qed
qed

lemma batch_equals_eval: "batch_equals (eval m) b = batch_equals m b"
  by (simp add: batch_equals_def Classifier_forward_eval)

lemma batch_equals_step:
  assumes e: "mode m = EvalMode"
      and f: "DropoutClassifier_forward bern m g images = (Inr log_ps, g')"
      and t: "topk1 (map (map exp) log_ps) = Inr (top_p, top_cls)"
      and q: "equals top_cls labels = Inr eq"
  shows "batch_equals m (images, labels) = eq \<and> eq \<noteq> [] \<and> g' = g"
proof -
  from f forward_eval[OF e, of bern g images]
  have c: "Classifier_forward m images = Inr log_ps" and g: "g' = g" by simp_all
  from forward_nonempty[OF f] have "log_ps \<noteq> []" .
  moreover from t have "length top_cls = length log_ps"
    by (auto simp: topk1_def split: if_splits)
  moreover from q have "length eq = length top_cls"
    by (auto simp: equals_def split: if_splits)
  ultimately have "eq \<noteq> []" by auto
  with c t q g show ?thesis by (simp add: batch_equals_def)
qed

lemma validation_batches_accuracy:
  "validation_batches T bs acc s = (Inr (l, a), s') \<Longrightarrow> mode (model s) = EvalMode \<Longrightarrow>
     a = foldl add (snd acc) (map (\<lambda>b. mean (as_float (batch_equals (model s) b))) bs)
   \<and> list_all (\<lambda>b. batch_equals (model s) b \<noteq> []) bs"
proof (induction T bs acc s rule: validation_batches.induct)
  case (1 T loss accuracy s)
  then show ?case by simp
next
  case (2 T images labels rest loss accuracy s)
  from "2.prems"(1) obtain log_ps g v top_p top_cls eq where
    f: "DropoutClassifier_forward (bernoulli T) (model s) (rng s) images = (Inr log_ps, g)"
    and n: "NLLLoss log_ps labels = Inr v"
    and t: "topk1 (map (map exp) log_ps) = Inr (top_p, top_cls)"
    and q: "equals top_cls labels = Inr eq"
    by (auto split: prod.splits sum.splits)
  from "2.prems"(1) f n t q have r:
    "validation_batches T rest (add loss v, add accuracy (mean (as_float eq))) (s\<lparr>rng := g\<rparr>) = (Inr (l, a), s')"
    by simp
  have m: "mode (model (s\<lparr>rng := g\<rparr>)) = EvalMode" using "2.prems"(2) by simp
  from "2.IH"[OF f[symmetric] refl n t refl q r m]
  have IH: "a = foldl add (add accuracy (mean (as_float eq)))
                  (map (\<lambda>b. mean (as_float (batch_equals (model s) b))) rest)
          \<and> list_all (\<lambda>b. batch_equals (model s) b \<noteq> []) rest"
    by simp
  from batch_equals_step[OF "2.prems"(2) f t q]
  have "batch_equals (model s) (images, labels) = eq" "eq \<noteq> []" by simp_all
  with IH show ?case by simp
qed

lemma validation_accuracy:
  assumes v: "validation T tel s = (Inr (l, a), s2)" and ne: "dataset tel \<noteq> []"
      and b: "0 < batch_size tel"
  shows "truediv a (len tel) = Inr (Tensor (Fin (mean_of_batch_means (validation_equals T tel s))))"
proof -
  obtain bs where i: "iter (randperm T) tel (rng s) = (bs, Suc (rng s))"
    using snd_iter[of "randperm T" tel "rng s"] by (cases "iter (randperm T) tel (rng s)") simp
  let ?eqs = "map (batch_equals (model s)) bs"
  from v have vb: "validation_batches T bs (PyNum (Fin 0), PyNum (Fin 0))
      (s\<lparr>model := eval (model s), rng := Suc (rng s)\<rparr>) = (Inr (l, a), s2)"
    by (simp add: validation_def Let_def i)
  have "mode (model (s\<lparr>model := eval (model s), rng := Suc (rng s)\<rparr>)) = EvalMode"
    by (simp add: eval_def)
  from validation_batches_accuracy[OF vb this]
  have a: "a = foldl add (PyNum (Fin 0)) (map (\<lambda>eq. mean (as_float eq)) ?eqs)"
    and all: "list_all (\<lambda>eq. eq \<noteq> []) ?eqs"
    by (simp_all add: batch_equals_eval comp_def list_all_iff)
  have len: "length bs = len tel" using length_iter[OF b, of "randperm T" "rng s"] i by simp
  from ne b have "len tel \<noteq> 0" by (simp add: len_zero_iff)
  with len have nz: "?eqs \<noteq> []" by auto
  have "value_of (PyNum (Fin 0)) = Fin 0" by simp
  from foldl_add_means[OF all nz this] a
  have "a = Tensor (Fin (sum_list (map (\<lambda>eq. sum_list (as_float eq) / real (length eq)) ?eqs)))"
    by simp
  moreover have "length ?eqs = len tel" using len by simp
  ultimately show ?thesis
    using \<open>len tel \<noteq> 0\<close> i by (simp add: mean_of_batch_means_def validation_equals_def)
qed

lemma epoch_accuracy:
  assumes r: "run_epoch T trl tel n e s = (Inr u, s')" and b: "0 < batch_size tel"
  shows "\<exists>rl s1. train_batches T (fst (iter (randperm T) trl (rng s))) (PyNum (Fin 0))
                   (s\<lparr>rng := Suc (rng s)\<rparr>) = (Inr rl, s1)
           \<and> Accuracy (last (printed s'))
               = Tensor (Fin (mean_of_batch_means (validation_equals T tel s1) * 100))"
proof -
  from r obtain rl s1 l a s2 where
    t: "train_batches T (fst (iter (randperm T) trl (rng s))) (PyNum (Fin 0)) (s\<lparr>rng := Suc (rng s)\<rparr>) = (Inr rl, s1)"
    and v: "validation T tel s1 = (Inr (l, a), s2)"
    and p: "epoch_report e n (len trl) (len tel) rl l a s2 = (Inr u, s')"
    by (auto simp: run_epoch_phases split: prod.splits sum.splits)
  from epoch_report_returned[OF p] obtain x y z where
    y: "truediv l (len tel) = Inr y" and z: "truediv a (len tel) = Inr z"
    and s': "s' = s2\<lparr>train_losses := train_losses s2 @ [x], test_losses := test_losses s2 @ [y],
                 printed := printed s2 @ [\<lparr>Epoch = e + 1, Of = n, Train_Loss = x,
                    Test_Loss = y, Accuracy = mul z 100\<rparr>],
                 model := train (model s2)\<rparr>"
    by blast
  have ne: "dataset tel \<noteq> []"
  proof
    assume d: "dataset tel = []"
    then have "validation T tel s1 = (Inr (PyNum (Fin 0), PyNum (Fin 0)),
             s1\<lparr>model := eval (model s1), rng := Suc (rng s1)\<rparr>)"
      by (simp add: validation_def Let_def iter_empty)
    with v have "l = PyNum (Fin 0)" by simp
    moreover from d b have "len tel = 0" by (simp add: len_zero_iff)
    ultimately show False using y by simp
  qed
  from validation_accuracy[OF v ne b] z
  have "z = Tensor (Fin (mean_of_batch_means (validation_equals T tel s1)))" by simp
  with s' t show ?thesis by auto
qed

text \<open>Equal batch sizes, and unequal ones.\<close>

lemma sum_as_float_concat:
  "sum_list (as_float (concat eqs)) = sum_list (map (\<lambda>eq. sum_list (as_float eq)) eqs)"
  by (induction eqs) (simp_all add: as_float_def)

lemma length_concat_equal:
  "list_all (\<lambda>eq. length eq = n) eqs \<Longrightarrow> length (concat eqs) = length eqs * n"
  by (induction eqs) simp_all

lemma sum_list_divide: "sum_list (map (\<lambda>x. f x / (c::real)) xs) = sum_list (map f xs) / c"
  by (induction xs) (simp_all add: add_divide_distrib)

lemma equal_sizes_agree:
  assumes "list_all (\<lambda>eq. length eq = n) eqs"
  shows "mean_of_batch_means eqs = overall_fraction eqs"
proof -
  have e: "map (\<lambda>eq. sum_list (as_float eq) / real (length eq)) eqs
      = map (\<lambda>eq. sum_list (as_float eq) / real n) eqs"
    using assms by (induction eqs) simp_all
  have "mean_of_batch_means eqs
      = sum_list (map (\<lambda>eq. sum_list (as_float eq) / real n) eqs) / real (length eqs)"
    unfolding mean_of_batch_means_def e ..
  also have "\<dots> = sum_list (map (\<lambda>eq. sum_list (as_float eq)) eqs) / real n / real (length eqs)"
    by (simp only: sum_list_divide)
  also have "\<dots> = overall_fraction eqs"
    by (simp add: overall_fraction_def sum_as_float_concat length_concat_equal[OF assms]
          mult.commute)
  finally show ?thesis .
qed

lemma sum_as_float_replicate: "sum_list (as_float (replicate n b)) = (if b then real n else 0)"
  by (simp add: as_float_def sum_list_replicate)

lemma sum_list_delta:
  fixes f :: "nat \<Rightarrow> real"
  shows "j < k \<Longrightarrow> sum_list (map (\<lambda>i. if i = j then f i else 0) [0..<k]) = f j"
  by (simp add: interv_sum_list_conv_sum_set_nat)

lemma unequal_sizes_differ:
  assumes pos: "list_all (\<lambda>n. 0 < n) ns" and ne: "ns \<noteq> []"
      and neq: "\<not> list_all (\<lambda>n. n = hd ns) ns"
  shows "\<exists>eqs. map length eqs = ns \<and> mean_of_batch_means eqs \<noteq> overall_fraction eqs"
proof -
  let ?k = "length ns" and ?N = "sum_list ns"
  have kpos: "0 < ?k" using ne by simp
  have "\<exists>j<?k. ns ! j * ?k \<noteq> ?N"
  proof (rule ccontr)
    assume "\<not> (\<exists>j<?k. ns ! j * ?k \<noteq> ?N)"
    then have all: "\<And>j. j < ?k \<Longrightarrow> ns ! j * ?k = ?N" by blast
    have "ns ! j = hd ns" if "j < ?k" for j
    proof -
      have "ns ! j * ?k = ns ! 0 * ?k" using all[OF that] all[OF kpos] by simp
      then have "ns ! j = ns ! 0" using kpos by simp
      then show ?thesis using ne by (simp add: hd_conv_nth)
    qed
    then have "list_all (\<lambda>n. n = hd ns) ns" by (auto simp: list_all_length)
    with neq show False by contradiction
  qed
  then obtain j where j: "j < ?k" "ns ! j * ?k \<noteq> ?N" by blast
  define eqs where "eqs = map (\<lambda>i. replicate (ns ! i) (i = j)) [0..<?k]"
  have len: "map length eqs = ns"
    unfolding eqs_def by (simp add: comp_def map_nth)
  have posn: "0 < ns ! i" if "i < ?k" for i
    using pos that by (simp add: list_all_length)
  have mm: "map (\<lambda>eq. sum_list (as_float eq) / real (length eq)) eqs
      = map (\<lambda>i. if i = j then 1 else 0) [0..<?k]"
    unfolding eqs_def using posn[OF j(1)] by (auto simp: sum_as_float_replicate)
  have "length eqs = ?k" by (simp add: eqs_def)
  then have m: "mean_of_batch_means eqs = 1 / real ?k"
    unfolding mean_of_batch_means_def mm sum_list_delta[OF j(1), of "\<lambda>i. 1"] by simp
  have ss: "map (\<lambda>eq. sum_list (as_float eq)) eqs
      = map (\<lambda>i. if i = j then real (ns ! i) else 0) [0..<?k]"
    unfolding eqs_def by (auto simp: sum_as_float_replicate)
  have s: "sum_list (as_float (concat eqs)) = real (ns ! j)"
    unfolding sum_as_float_concat ss by (rule sum_list_delta[OF j(1)])
  have "length (concat eqs) = ?N"
    using len by (simp add: length_concat)
  with s have o: "overall_fraction eqs = real (ns ! j) / real ?N"
    by (simp add: overall_fraction_def)
  have Npos: "0 < ?N"
    using posn[OF j(1)] j(1) by (metis elem_le_sum_list less_le_trans)
  have "1 / real ?k \<noteq> real (ns ! j) / real ?N"
  proof
    assume "1 / real ?k = real (ns ! j) / real ?N"
    then have "real ?N = real (ns ! j) * real ?k"
      using kpos Npos by (simp add: field_simps)
    then have "?N = ns ! j * ?k" by (metis of_nat_eq_iff of_nat_mult)
    with j(2) show False by simp
  qed
  with m o len show ?thesis by auto
qed

lemma example_split:
  "map length (chunks 2 [a, b, c]) = [2, 1]"
  "mean_of_batch_means [[True, True], [False]] \<noteq> overall_fraction [[True, True], [False]]"
  by (simp_all add: chunks_step chunks_Nil mean_of_batch_means_def overall_fraction_def as_float_def)

text \<open>A validation pass over a full batch and an incomplete one, by a model without ties.\<close>

lemma peak_row: "map peak [0..<10] = [1, 0, 0, 0, 0, 0, 0, 0, 0, 0]"
  by (simp add: upt_ten peak_def)

lemma peak_top: "snd (top1 (map exp (map (\<lambda>v. v - z) (map peak [0..<10])))) = 0"
  by (simp add: peak_row)

lemma peaked_load: "holds wb m \<Longrightarrow> load_all (\<lambda>k. wb) m = m"
  by (simp add: holds_def load_all_def load_def Linear_init_def)

lemma peaked_fresh: "holds (\<lambda>i j. 0, peak) (model (fresh_session peaked_torch g out))"
  by (simp add: holds_def fresh_session_def DropoutClassifier_init_def peaked_torch_def)

lemma peaked_forward:
  assumes h: "holds (\<lambda>i j. 0, peak) m" and ne: "xs \<noteq> []"
      and fl: "list_all (\<lambda>x. length (flat x) = 784) xs"
  shows "DropoutClassifier_forward bern m g (Array xs) =
           (Inr (log_softmax (map (\<lambda>x. map peak [0..<10]) xs)),
            if mode m = TrainMode then g + 3 else g)"
proof -
  from ne obtain t ts where x: "xs = t # ts" by (cases xs) auto
  have inp: "list_all (\<lambda>x. length x = in_features (fc1 m)) (map flat (t # ts))"
    using h fl x by (simp add: holds_def Linear_init_def list_all_iff)
  have "DropoutClassifier_forward bern m g (Array (t # ts)) =
           (Inr (log_softmax (map (\<lambda>x. map (bias (fc4 m)) [0..<out_features (fc4 m)]) (t # ts))),
            if mode m = TrainMode then g + 3 else g)"
    using h by (intro forward_weightless inp) (simp_all add: holds_def Linear_init_def)
  moreover have "bias (fc4 m) = peak" "out_features (fc4 m) = 10"
    using h by (simp_all add: holds_def Linear_init_def)
  ultimately show ?thesis using x by simp
qed

lemma topk1_same:
  "row \<noteq> [] \<Longrightarrow>
     topk1 (map (\<lambda>x. row) xs) = Inr (map (\<lambda>x. fst (top1 row)) xs, map (\<lambda>x. snd (top1 row)) xs)"
  by (simp add: topk1_def list_all_iff comp_def)

lemma peaked_rows:
  "map (map exp) (log_softmax (map (\<lambda>x. map peak [0..<10]) xs))
     = map (\<lambda>x. map exp (map (\<lambda>v. v - ln (sum_list (map exp (map peak [0..<10])))) (map peak [0..<10]))) xs"
  by (simp add: log_softmax_def)

lemma peaked_topk_returns:
  "\<exists>tp. topk1 (map (map exp) (log_softmax (map (\<lambda>x. map peak [0..<10]) xs)))
     = Inr (tp, map (\<lambda>x. 0) xs)"
proof -
  let ?row = "map exp (map (\<lambda>v. v - ln (sum_list (map exp (map peak [0..<10])))) (map peak [0..<10]))"
  have "?row \<noteq> []" by (simp add: peak_row)
  from topk1_same[OF this, of xs] show ?thesis
    unfolding peaked_rows by (simp only: peak_top) blast
qed

lemma peaked_loss_returns:
  assumes "length labels = length xs" and "list_all (\<lambda>l. 0 \<le> l \<and> l < 10) labels"
  shows "\<exists>v. NLLLoss (log_softmax (map (\<lambda>x. map peak [0..<10]) xs)) labels = Inr v"
proof -
  let ?rows = "log_softmax (map (\<lambda>x. map peak [0..<10]) xs)"
  have len: "length ?rows = length labels" using assms(1) by (simp add: log_softmax_def)
  have w: "list_all (\<lambda>row. length row = 10) ?rows"
    by (simp add: log_softmax_def list_all_iff)
  have "list_all (\<lambda>(row, l). 0 \<le> l \<and> l < int (length row)) (zip ?rows labels)"
    using zip_in_range[OF len w] assms(2) by simp
  from nll_sum_ok[OF len this, of 0] len show ?thesis
    by (simp add: NLLLoss_def)
qed

lemma equals_zero:
  "length labels = length xs \<Longrightarrow>
     equals (map (\<lambda>x. 0) xs) labels = Inr (map (\<lambda>l. l = 0) labels)"
proof -
  assume len: "length labels = length xs"
  have "map (\<lambda>(c, l). int c = l) (zip (map (\<lambda>x. 0) xs) labels) = map (\<lambda>l. l = 0) labels"
    using len[symmetric] by (induction xs labels rule: list_induct2) auto
  with len show ?thesis by (simp add: equals_def)
qed

lemma peaked_batch_equals:
  fixes m :: DropoutClassifier
  assumes h: "holds (\<lambda>i j. 0, peak) m" and ne: "xs \<noteq> []"
      and fl: "list_all (\<lambda>x. length (flat x) = 784) xs"
      and len: "length labels = length xs"
  shows "batch_equals m (Array xs, labels) = map (\<lambda>l. l = 0) labels"
proof -
  have he: "holds (\<lambda>i j. 0, peak) (eval m)" using h by (simp add: eval_def holds_mode)
  have me: "mode (eval m) = EvalMode" by (simp add: eval_def)
  from peaked_forward[OF he ne fl, of "\<lambda>g i j. False" 0] forward_eval[OF me, of "\<lambda>g i j. False" 0 "Array xs"]
  have c: "Classifier_forward m (Array xs) = Inr (log_softmax (map (\<lambda>x. map peak [0..<10]) xs))"
    by (simp add: Classifier_forward_eval me)
  from peaked_topk_returns[of xs] obtain tp where
    t: "topk1 (map (map exp) (log_softmax (map (\<lambda>x. map peak [0..<10]) xs))) = Inr (tp, map (\<lambda>x. 0) xs)"
    by blast
  show ?thesis by (simp add: batch_equals_def c t equals_zero[OF len])
qed

lemma peaked_validation_step:
  assumes h: "holds (\<lambda>i j. 0, peak) (model s)" and m: "mode (model s) = EvalMode"
      and ne: "xs \<noteq> []" and fl: "list_all (\<lambda>x. length (flat x) = 784) xs"
      and len: "length labels = length xs" and r: "list_all (\<lambda>l. 0 \<le> l \<and> l < 10) labels"
  shows "\<exists>v. validation_batches T ((Array xs, labels) # rest) (tloss, acc) s
           = validation_batches T rest (add tloss v, add acc (mean (as_float (map (\<lambda>l. l = 0) labels)))) s"
proof -
  have f: "DropoutClassifier_forward (bernoulli T) (model s) (rng s) (Array xs)
      = (Inr (log_softmax (map (\<lambda>x. map peak [0..<10]) xs)), rng s)"
    using peaked_forward[OF h ne fl] m by simp
  from peaked_loss_returns[OF len r] obtain v where
    n: "NLLLoss (log_softmax (map (\<lambda>x. map peak [0..<10]) xs)) labels = Inr v" by blast
  from peaked_topk_returns[of xs] obtain tp where
    t: "topk1 (map (map exp) (log_softmax (map (\<lambda>x. map peak [0..<10]) xs))) = Inr (tp, map (\<lambda>x. 0) xs)"
    by blast
  have "validation_batches T ((Array xs, labels) # rest) (tloss, acc) s
           = validation_batches T rest (add tloss v, add acc (mean (as_float (map (\<lambda>l. l = 0) labels)))) s"
    by (simp add: f n t equals_zero[OF len])
  then show ?thesis by blast
qed

lemma iter_full_and_one:
  "iter (randperm peaked_torch) (full_and_one l) g
     = ([(Array (replicate 64 blank_image), replicate 64 0), (Array [blank_image], [l])], Suc g)"
  by (simp add: iter_def full_and_one_def peaked_torch_def shuffle_def chunks_step chunks_Nil
        collate_def)

lemma iter_one_sample_peaked:
  "iter (randperm peaked_torch) (one_sample l) g = ([(Array [blank_image], [l])], Suc g)"
  by (simp add: iter_def one_sample_def peaked_torch_def shuffle_def chunks_step chunks_Nil collate_def)

lemma len_full_and_one: "len (full_and_one l) = 2"
  by (simp add: len_def full_and_one_def)

lemma blank_batch:
  "list_all (\<lambda>x. length (flat x) = 784) (replicate n blank_image)"
  by (simp add: list_all_iff flat_blank_image)

lemma peaked_validation_equals:
  assumes h: "holds (\<lambda>i j. 0, peak) (model s)"
  shows "validation_equals peaked_torch (full_and_one l) s = [replicate 64 True, [l = 0]]"
proof -
  have 1: "batch_equals (model s) (Array (replicate 64 blank_image), replicate 64 0)
      = map (\<lambda>l. l = 0) (replicate 64 (0::int))"
    by (rule peaked_batch_equals[OF h]) (simp_all add: blank_batch)
  have 2: "batch_equals (model s) (Array [blank_image], [l]) = map (\<lambda>l. l = 0) [l]"
    by (rule peaked_batch_equals[OF h]) (simp_all add: flat_blank_image)
  show ?thesis by (simp add: validation_equals_def iter_full_and_one 1 2)
qed

lemma peaked_validation:
  assumes h: "holds (\<lambda>i j. 0, peak) (model s)" and l: "0 \<le> l \<and> l < 10"
  shows "\<exists>tloss. validation peaked_torch (full_and_one l) s
           = (Inr (tloss, Tensor (Fin (1 + (if l = 0 then 1 else 0)))),
              s\<lparr>model := eval (model s), rng := Suc (rng s)\<rparr>)"
proof -
  let ?s = "s\<lparr>model := eval (model s), rng := Suc (rng s)\<rparr>"
  have he: "holds (\<lambda>i j. 0, peak) (model ?s)" using h by (simp add: eval_def holds_mode)
  have me: "mode (model ?s) = EvalMode" by (simp add: eval_def)
  have b1: "replicate 64 blank_image \<noteq> []" "length (replicate 64 (0::int)) = length (replicate 64 blank_image)"
      "list_all (\<lambda>l. 0 \<le> l \<and> l < 10) (replicate 64 (0::int))"
    by (simp_all add: list_all_iff)
  from peaked_validation_step[OF he me b1(1) blank_batch b1(2) b1(3), of peaked_torch
      "[(Array [blank_image], [l])]" "PyNum (Fin 0)" "PyNum (Fin 0)"]
  obtain v where 1: "validation_batches peaked_torch
        [(Array (replicate 64 blank_image), replicate 64 0), (Array [blank_image], [l])]
        (PyNum (Fin 0), PyNum (Fin 0)) ?s
      = validation_batches peaked_torch [(Array [blank_image], [l])]
          (add (PyNum (Fin 0)) v, add (PyNum (Fin 0)) (mean (as_float (map (\<lambda>l. l = 0) (replicate 64 (0::int)))))) ?s"
    by blast
  have b2: "[blank_image] \<noteq> []" "list_all (\<lambda>x. length (flat x) = 784) [blank_image]"
      "length [l] = length [blank_image]" "list_all (\<lambda>l. 0 \<le> l \<and> l < 10) [l]"
    using l by (simp_all add: flat_blank_image)
  from peaked_validation_step[OF he me b2, of peaked_torch "[]"
      "add (PyNum (Fin 0)) v" "add (PyNum (Fin 0)) (mean (as_float (map (\<lambda>l. l = 0) (replicate 64 (0::int)))))"]
  obtain w where 2: "validation_batches peaked_torch [(Array [blank_image], [l])]
          (add (PyNum (Fin 0)) v, add (PyNum (Fin 0)) (mean (as_float (map (\<lambda>l. l = 0) (replicate 64 (0::int)))))) ?s
      = validation_batches peaked_torch []
          (add (add (PyNum (Fin 0)) v) w,
           add (add (PyNum (Fin 0)) (mean (as_float (map (\<lambda>l. l = 0) (replicate 64 (0::int))))))
             (mean (as_float (map (\<lambda>l. l = 0) [l])))) ?s"
    by blast
  have a: "add (add (PyNum (Fin 0)) (mean (as_float (map (\<lambda>l. l = 0) (replicate 64 (0::int))))))
             (mean (as_float (map (\<lambda>l. l = 0) [l])))
         = Tensor (Fin (1 + (if l = 0 then 1 else 0)))"
    by (simp add: mean_def as_float_def sum_list_replicate)
  have "validation peaked_torch (full_and_one l) s
      = validation_batches peaked_torch
          [(Array (replicate 64 blank_image), replicate 64 0), (Array [blank_image], [l])]
          (PyNum (Fin 0), PyNum (Fin 0)) ?s"
    by (simp add: validation_def Let_def iter_full_and_one del: validation_batches.simps)
  also note 1
  also note 2
  also have "validation_batches peaked_torch []
          (add (add (PyNum (Fin 0)) v) w,
           add (add (PyNum (Fin 0)) (mean (as_float (map (\<lambda>l. l = 0) (replicate 64 (0::int))))))
             (mean (as_float (map (\<lambda>l. l = 0) [l])))) ?s
      = (Inr (add (add (PyNum (Fin 0)) v) w, Tensor (Fin (1 + (if l = 0 then 1 else 0)))), ?s)"
    by (simp only: validation_batches.simps a)
  finally have "validation peaked_torch (full_and_one l) s
      = (Inr (add (add (PyNum (Fin 0)) v) w, Tensor (Fin (1 + (if l = 0 then 1 else 0)))), ?s)" .
  then show ?thesis by blast
qed

lemma peaked_training:
  assumes h: "holds (\<lambda>i j. 0, peak) (model s)" and m: "mode (model s) = TrainMode"
  shows "\<exists>rl. train_batches peaked_torch [(Array [blank_image], [0])] (PyNum (Fin 0)) s
           = (Inr rl, s\<lparr>rng := rng s + 3\<rparr>)"
proof -
  have b: "[blank_image] \<noteq> []" "list_all (\<lambda>x. length (flat x) = 784) [blank_image]"
      "length [0::int] = length [blank_image]" "list_all (\<lambda>l. 0 \<le> l \<and> l < 10) [0::int]"
    by (simp_all add: flat_blank_image)
  have f: "DropoutClassifier_forward (bernoulli peaked_torch) (model s) (rng s) (Array [blank_image])
      = (Inr (log_softmax (map (\<lambda>x. map peak [0..<10]) [blank_image])), rng s + 3)"
    using peaked_forward[OF h b(1) b(2)] m by simp
  from peaked_loss_returns[OF b(3) b(4)] obtain v where
    n: "NLLLoss (log_softmax [map peak [0..<10]]) [0] = Inr v" by auto
  have st: "backward_step peaked_torch opt mo g x y = ((), \<lambda>k. (\<lambda>i j. 0, peak))" for opt mo g x y
    by (simp add: peaked_torch_def)
  have "train_batches peaked_torch [(Array [blank_image], [0])] (PyNum (Fin 0)) s
           = (Inr (add (PyNum (Fin 0)) (item v)), s\<lparr>rng := rng s + 3\<rparr>)"
    by (simp add: f n st peaked_load[OF h])
  then show ?thesis by blast
qed

lemma peaked_epoch:
  assumes h: "holds (\<lambda>i j. 0, peak) (model s)" and m: "mode (model s) = TrainMode"
      and l: "0 \<le> l \<and> l < 10"
  shows "fst (run_epoch peaked_torch (one_sample 0) (full_and_one l) n e s) = Inr ()"
    and "snd (train_batches peaked_torch (fst (iter (randperm peaked_torch) (one_sample 0) (rng s)))
               (PyNum (Fin 0)) (s\<lparr>rng := Suc (rng s)\<rparr>)) = s\<lparr>rng := rng s + 4\<rparr>"
    and "Accuracy (last (printed (snd (run_epoch peaked_torch (one_sample 0) (full_and_one l) n e s))))
           = Tensor (Fin (if l = 0 then 100 else 50))"
proof -
  let ?sa = "s\<lparr>rng := Suc (rng s)\<rparr>"
  let ?sb = "s\<lparr>rng := rng s + 4\<rparr>"
  have ha: "holds (\<lambda>i j. 0, peak) (model ?sa)" "mode (model ?sa) = TrainMode"
    using h m by simp_all
  from peaked_training[OF ha] obtain rl where
    t: "train_batches peaked_torch (fst (iter (randperm peaked_torch) (one_sample 0) (rng s)))
          (PyNum (Fin 0)) ?sa = (Inr rl, ?sb)"
    by (auto simp: iter_one_sample_peaked)
  then show "snd (train_batches peaked_torch (fst (iter (randperm peaked_torch) (one_sample 0) (rng s)))
               (PyNum (Fin 0)) ?sa) = ?sb"
    by simp
  have hb: "holds (\<lambda>i j. 0, peak) (model ?sb)" using h by simp
  from peaked_validation[OF hb l] obtain tloss where
    v: "validation peaked_torch (full_and_one l) ?sb
          = (Inr (tloss, Tensor (Fin (1 + (if l = 0 then 1 else 0)))),
             ?sb\<lparr>model := eval (model ?sb), rng := Suc (rng ?sb)\<rparr>)"
    by blast
  have r: "run_epoch peaked_torch (one_sample 0) (full_and_one l) n e s
      = epoch_report e n (len (one_sample 0)) (len (full_and_one l)) rl tloss
          (Tensor (Fin (1 + (if l = 0 then 1 else 0))))
          (?sb\<lparr>model := eval (model ?sb), rng := Suc (rng ?sb)\<rparr>)"
    by (simp only: run_epoch_phases t v prod.case sum.case)
  then show "fst (run_epoch peaked_torch (one_sample 0) (full_and_one l) n e s) = Inr ()"
    by (simp add: epoch_report_completes len_one_sample len_full_and_one)
  from truediv_positive[of 1 rl] obtain x where x: "truediv rl (Suc 0) = Inr x" by auto
  from truediv_positive[of 2 tloss] obtain y where y: "truediv tloss 2 = Inr y" by auto
  show "Accuracy (last (printed (snd (run_epoch peaked_torch (one_sample 0) (full_and_one l) n e s))))
           = Tensor (Fin (if l = 0 then 100 else 50))"
    unfolding r
    by (simp add: epoch_report_def Let_def len_one_sample len_full_and_one x y last_item_snoc)
qed

lemma full_and_one_fractions:
  "map length [replicate 64 True, [b]] = [64, 1]"
  "overall_fraction [replicate 64 True, [b]] * 100 = (if b then 100 else 1280 / 13)"
  "mean_of_batch_means [replicate 64 True, [b]] * 100 = (if b then 100 else 50)"
  by (simp_all add: overall_fraction_def mean_of_batch_means_def as_float_def sum_list_replicate)

text \<open>
  Claim C3 as stated fails where it says \<open>exactly when\<close>: the two values can be equal
  although the validation batches differ in size. With 65 validation images that
  are all labelled 0 and a model that predicts class 0, the batches hold 64 samples
  and 1 sample, and the reported accuracy and the overall fraction of correctly
  classified samples are both 100 percent.
\<close>

theorem reported_accuracy_counterexample:
  "fst (run_epoch peaked_torch (one_sample 0) (full_and_one 0) 30 0 (fresh_session peaked_torch 0 []))
     = Inr ()
 \<and> Accuracy (last (printed (snd (run_epoch peaked_torch (one_sample 0) (full_and_one 0) 30 0
       (fresh_session peaked_torch 0 [])))))
     = Tensor (Fin 100)
 \<and> map length (validation_equals peaked_torch (full_and_one 0)
       (snd (train_batches peaked_torch
          (fst (iter (randperm peaked_torch) (one_sample 0) (rng (fresh_session peaked_torch 0 []))))
          (PyNum (Fin 0))
          ((fresh_session peaked_torch 0 [])\<lparr>rng := Suc (rng (fresh_session peaked_torch 0 []))\<rparr>))))
     = [64, 1]
 \<and> overall_fraction (validation_equals peaked_torch (full_and_one 0)
       (snd (train_batches peaked_torch
          (fst (iter (randperm peaked_torch) (one_sample 0) (rng (fresh_session peaked_torch 0 []))))
          (PyNum (Fin 0))
          ((fresh_session peaked_torch 0 [])\<lparr>rng := Suc (rng (fresh_session peaked_torch 0 []))\<rparr>))))
       * 100
     = 100"
proof -
  let ?s = "fresh_session peaked_torch 0 []"
  have h: "holds (\<lambda>i j. 0, peak) (model ?s)" and m: "mode (model ?s) = TrainMode"
    by (simp_all add: peaked_fresh mode_fresh)
  have l: "0 \<le> (0::int) \<and> (0::int) < 10" by simp
  note e = peaked_epoch(1)[OF h m l, of 30 0] peaked_epoch(2)[OF h m l]
    peaked_epoch(3)[OF h m l, of 30 0]
  have h1: "holds (\<lambda>i j. 0, peak) (model (?s\<lparr>rng := rng ?s + 4\<rparr>))" using h by simp
  note q = peaked_validation_equals[OF h1, of 0]
  show ?thesis
    unfolding e(2) q by (simp add: e(1) e(3) full_and_one_fractions)
qed

text \<open>
  Claim C3, as the code has it. The accuracy that an epoch reports is, as a
  percentage, the unweighted mean of the per-batch accuracies of its validation
  pass: their sum divided by the number of validation batches. When all batches
  have the same size this mean equals the fraction of all validation samples that
  are classified correctly, and equal sizes are the only batch sizes for which the
  two agree whatever the model predicts: for unequal sizes some outcome separates
  them, though others (as above) do not. For a split of three samples in batches of
  two, whose last batch is incomplete, the two values differ when the model is
  right on the first batch and wrong on the last.
\<close>

theorem reported_accuracy:
  "(run_epoch T trl tel n e s = (Inr u, s') \<and> 0 < batch_size tel \<longrightarrow>
      (\<exists>rl s1. train_batches T (fst (iter (randperm T) trl (rng s))) (PyNum (Fin 0))
                  (s\<lparr>rng := Suc (rng s)\<rparr>) = (Inr rl, s1)
         \<and> Accuracy (last (printed s'))
             = Tensor (Fin (mean_of_batch_means (validation_equals T tel s1) * 100))))
 \<and> (ns \<noteq> [] \<and> list_all (\<lambda>n. 0 < n) ns \<longrightarrow>
      ((\<forall>eqs. map length eqs = ns \<longrightarrow> mean_of_batch_means eqs = overall_fraction eqs)
        \<longleftrightarrow> list_all (\<lambda>n. n = hd ns) ns))
 \<and> map length (chunks 2 [a, b, c]) = [2, 1]
 \<and> mean_of_batch_means [[True, True], [False]] \<noteq> overall_fraction [[True, True], [False]]"
proof (intro conjI impI)
  assume "run_epoch T trl tel n e s = (Inr u, s') \<and> 0 < batch_size tel"
  then show "\<exists>rl s1. train_batches T (fst (iter (randperm T) trl (rng s))) (PyNum (Fin 0))
                  (s\<lparr>rng := Suc (rng s)\<rparr>) = (Inr rl, s1)
         \<and> Accuracy (last (printed s'))
             = Tensor (Fin (mean_of_batch_means (validation_equals T tel s1) * 100))"
    using epoch_accuracy by blast
next
  assume a: "ns \<noteq> [] \<and> list_all (\<lambda>n. 0 < n) ns"
  show "(\<forall>eqs. map length eqs = ns \<longrightarrow> mean_of_batch_means eqs = overall_fraction eqs)
        \<longleftrightarrow> list_all (\<lambda>n. n = hd ns) ns"
  proof
    assume "\<forall>eqs. map length eqs = ns \<longrightarrow> mean_of_batch_means eqs = overall_fraction eqs"
    with unequal_sizes_differ[of ns] a show "list_all (\<lambda>n. n = hd ns) ns" by blast
  next
    assume h: "list_all (\<lambda>n. n = hd ns) ns"
    show "\<forall>eqs. map length eqs = ns \<longrightarrow> mean_of_batch_means eqs = overall_fraction eqs"
    proof (intro allI impI)
      fix eqs :: "bool list list"
      assume "map length eqs = ns"
      with h have "list_all (\<lambda>eq. length eq = hd ns) eqs"
        by (auto simp: list_all_iff)
      then show "mean_of_batch_means eqs = overall_fraction eqs" by (rule equal_sizes_agree)
    qed
  qed
next
  show "map length (chunks 2 [a, b, c]) = [2, 1]" by (rule example_split)
next
  show "mean_of_batch_means [[True, True], [False]] \<noteq> overall_fraction [[True, True], [False]]"
    by (rule example_split)
qed

theorem reported_accuracy_witness:
  "fst (run_epoch peaked_torch (one_sample 0) (full_and_one 1) 30 0 (fresh_session peaked_torch 0 []))
     = Inr ()
 \<and> Accuracy (last (printed (snd (run_epoch peaked_torch (one_sample 0) (full_and_one 1) 30 0
       (fresh_session peaked_torch 0 [])))))
     = Tensor (Fin 50)
 \<and> map length (validation_equals peaked_torch (full_and_one 1)
       (snd (train_batches peaked_torch
          (fst (iter (randperm peaked_torch) (one_sample 0) (rng (fresh_session peaked_torch 0 []))))
          (PyNum (Fin 0))
          ((fresh_session peaked_torch 0 [])\<lparr>rng := Suc (rng (fresh_session peaked_torch 0 []))\<rparr>))))
     = [64, 1]
 \<and> overall_fraction (validation_equals peaked_torch (full_and_one 1)
       (snd (train_batches peaked_torch
          (fst (iter (randperm peaked_torch) (one_sample 0) (rng (fresh_session peaked_torch 0 []))))
          (PyNum (Fin 0))
          ((fresh_session peaked_torch 0 [])\<lparr>rng := Suc (rng (fresh_session peaked_torch 0 []))\<rparr>))))
       * 100
     = 1280 / 13
 \<and> mean_of_batch_means [[True, False], [True, True]] = overall_fraction [[True, False], [True, True]]
 \<and> (\<exists>eqs. map length eqs = [2, 1] \<and> mean_of_batch_means eqs \<noteq> overall_fraction eqs)"
proof -
  let ?s = "fresh_session peaked_torch 0 []"
  let ?r = "run_epoch peaked_torch (one_sample 0) (full_and_one 1) 30 0 ?s"
  let ?t = "train_batches peaked_torch (fst (iter (randperm peaked_torch) (one_sample 0) (rng ?s)))
              (PyNum (Fin 0)) (?s\<lparr>rng := Suc (rng ?s)\<rparr>)"
  have h: "holds (\<lambda>i j. 0, peak) (model ?s)" and m: "mode (model ?s) = TrainMode"
    by (simp_all add: peaked_fresh mode_fresh)
  have l: "0 \<le> (1::int) \<and> (1::int) < 10" by simp
  note e = peaked_epoch(1)[OF h m l, of 30 0] peaked_epoch(2)[OF h m l]
  have h1: "holds (\<lambda>i j. 0, peak) (model (?s\<lparr>rng := rng ?s + 4\<rparr>))" using h by simp
  note q = peaked_validation_equals[OF h1, of 1]
  have b: "0 < batch_size (full_and_one 1)" by (simp add: full_and_one_def)
  from e(1) have r': "?r = (Inr (), snd ?r)" by (cases ?r) simp
  note ra = reported_accuracy[of peaked_torch "one_sample 0" "full_and_one 1" 30 0 ?s "()" "snd ?r",
      THEN conjunct1, THEN mp, OF conjI[OF r' b]]
  then obtain rl s1 where
    t: "?t = (Inr rl, s1)"
    and ac: "Accuracy (last (printed (snd ?r)))
          = Tensor (Fin (mean_of_batch_means (validation_equals peaked_torch (full_and_one 1) s1) * 100))"
    by blast
  from t e(2) have s1: "s1 = ?s\<lparr>rng := rng ?s + 4\<rparr>" by simp
  have A: "Accuracy (last (printed (snd ?r))) = Tensor (Fin 50)"
    unfolding ac s1 q by (simp add: full_and_one_fractions)
  have B: "map length (validation_equals peaked_torch (full_and_one 1) (snd ?t)) = [64, 1]"
    unfolding e(2) q by (simp add: full_and_one_fractions)
  have C: "overall_fraction (validation_equals peaked_torch (full_and_one 1) (snd ?t)) * 100 = 1280 / 13"
    unfolding e(2) q by (simp add: full_and_one_fractions)
  have p2: "[2, 2] \<noteq> [] \<and> list_all (\<lambda>n. 0 < n) [2, 2::nat]" by simp
  note e2 = reported_accuracy[where ns = "[2, 2]", THEN conjunct2, THEN conjunct1, THEN mp, OF p2]
  have "list_all (\<lambda>n. n = hd [2, 2::nat]) [2, 2]" by simp
  with e2 have "\<forall>eqs. map length eqs = [2, 2] \<longrightarrow> mean_of_batch_means eqs = overall_fraction eqs"
    by (rule iffD2)
  then have D: "mean_of_batch_means [[True, False], [True, True]]
       = overall_fraction [[True, False], [True, True]]"
    by simp
  have p1: "[2, 1] \<noteq> [] \<and> list_all (\<lambda>n. 0 < n) [2, 1::nat]" by simp
  note e1 = reported_accuracy[where ns = "[2, 1]", THEN conjunct2, THEN conjunct1, THEN mp, OF p1]
  have "\<not> list_all (\<lambda>n. n = hd [2, 1::nat]) [2, 1]" by simp
  with e1 have "\<not> (\<forall>eqs. map length eqs = [2, 1] \<longrightarrow> mean_of_batch_means eqs = overall_fraction eqs)"
    by blast
  then have E: "\<exists>eqs. map length eqs = [2, 1] \<and> mean_of_batch_means eqs \<noteq> overall_fraction eqs"
    by (simp only: not_all not_imp)
  from e(1) A B C D E show ?thesis by (intro conjI)
qed

section \<open>Probabilities over the reals\<close>

text \<open>
  With tensor entries taken as real numbers, the exponentiated output of the forward
  pass is a probability distribution for every sample: its entries are positive and
  sum to exactly one, as soon as the last layer has an output unit. How far the
  32-bit floating-point computation is from this is outside the model.
\<close>

lemma sum_exp_nonneg: "0 \<le> sum_list (map exp (row :: real list))"
  by (induction row) simp_all

lemma sum_exp_positive: "row \<noteq> [] \<Longrightarrow> 0 < sum_list (map exp (row :: real list))"
proof (cases row)
  case Nil
  then show "row \<noteq> [] \<Longrightarrow> ?thesis" by simp
next
  case (Cons v vs)
  have "0 < exp v + sum_list (map exp vs)"
    using sum_exp_nonneg[of vs] exp_gt_zero[of v] by linarith
  with Cons show ?thesis by simp
qed

lemma exp_log_softmax_row:
  fixes row :: "real list"
  assumes "row \<noteq> []"
  shows "sum_list (map (\<lambda>v. exp (v - ln (sum_list (map exp row)))) row) = 1"
proof -
  let ?S = "sum_list (map exp row)"
  have S: "0 < ?S" using assms by (rule sum_exp_positive)
  have "map (\<lambda>v. exp (v - ln ?S)) row = map (\<lambda>v. exp v / ?S) row"
    using S by (simp add: exp_diff)
  then have "sum_list (map (\<lambda>v. exp (v - ln ?S)) row) = ?S / ?S"
    by (simp only: sum_list_divide)
  with S show ?thesis by simp
qed

lemma Linear_forward_widths:
  "Linear_forward l xs = Inr ys \<Longrightarrow> list_all (\<lambda>y. length y = out_features l) ys"
  by (auto simp: Linear_forward_def widths_affine split: if_splits)

lemma forward_probabilities:
  assumes f: "DropoutClassifier_forward bern m g x = (Inr log_ps, g')"
      and o: "0 < out_features (fc4 m)"
  shows "list_all (\<lambda>row. sum_list (map exp row) = 1 \<and> list_all (\<lambda>p. 0 < p) (map exp row)) log_ps"
proof -
  from f obtain x3 a4 where
    l4: "Linear_forward (fc4 m) x3 = Inr a4" and r: "log_ps = log_softmax a4"
    by (auto simp: DropoutClassifier_forward_def split: sum.splits prod.splits)
  from Linear_forward_widths[OF l4] o have ne: "list_all (\<lambda>row. row \<noteq> []) a4"
    by (auto simp: list_all_iff)
  show ?thesis
    unfolding r log_softmax_def using ne
    by (auto simp: list_all_iff exp_log_softmax_row comp_def)
qed

end
